theory Spec2Isabelle
  imports Complex_Main "HOL-Library.AList"
begin

section \<open>Strings\<close>

text \<open>
  JavaScript strings are modelled as \<open>string\<close> (lists of characters).  The helpers below are
  the string built-ins the modelled code calls: \<open>endsWith\<close>, \<open>startsWith\<close>, \<open>slice\<close>,
  \<open>split\<close>, \<open>join\<close> and \<open>toUpperCase\<close> (on ASCII letters).
\<close>

definition endsWith :: "string \<Rightarrow> string \<Rightarrow> bool" where
  "endsWith s suffix = (length suffix \<le> length s \<and> drop (length s - length suffix) s = suffix)"

definition startsWith :: "string \<Rightarrow> string \<Rightarrow> bool" where
  "startsWith s pre = (take (length pre) s = pre)"

text \<open>\<open>s.split(sep)\<close> for a one-character separator: never empty, \<open>"".split("/")\<close> is \<open>[""]\<close>.\<close>

fun split :: "char \<Rightarrow> string \<Rightarrow> string list" where
  "split sep [] = [[]]"
| "split sep (c # cs) =
     (if c = sep then [] # split sep cs
      else (let ws = split sep cs in (c # hd ws) # tl ws))"

text \<open>\<open>xs.join(sep)\<close>.\<close>

fun join :: "string \<Rightarrow> string list \<Rightarrow> string" where
  "join sep [] = []"
| "join sep [x] = x"
| "join sep (x # y # ys) = x @ sep @ join sep (y # ys)"

section \<open>Manifest data model\<close>

datatype RouteType = Page | Api

text \<open>
  Modelled from the spec: the declaration of \<open>CacheConfig\<close> lives in the shared package, which
  is not part of the sources; the spec names its fields (maxAge / sMaxAge /
  staleWhileRevalidate) and the code reads each of them as an optional number.
\<close>

record CacheConfig =
  maxAge :: "int option"
  sMaxAge :: "int option"
  staleWhileRevalidate :: "int option"

text \<open>
  The fields of a manifest route entry that the build orchestrator writes and the production
  server reads.  Optional fields (\<open>undefined\<close> when absent) are options.
\<close>

record ManifestRouteEntry =
  entry_id :: string
  pattern :: string
  entry_type :: RouteType
  clientEntry :: "string option"
  clientChunks :: "string list option"
  css :: "string list option"
  ssrEntry :: "string option"
  serverEntry :: "string option"
  hasLoad :: "bool option"
  methods :: "string list option"
  prerendered :: "bool option"
  prerenderedFile :: "string option"
  prerenderedCount :: "nat option"
  cache :: "CacheConfig option"
  layouts :: "string list option"
  middleware :: "string list option"

section \<open>Production matcher (prod-server: buildMatcher)\<close>

text \<open>
  \<open>staticChildren\<close> is a JavaScript \<open>Map\<close>; it is modelled as an association list in insertion
  order, read with \<open>map_of\<close> and written with \<open>AList.update\<close> (replace in place, or append).
\<close>

datatype TrieNode = TrieNode
  (staticChildren: "(string \<times> TrieNode) list")
  (dynamicChild: "(string \<times> TrieNode) option")
  (catchAllChild: "(string \<times> ManifestRouteEntry) option")
  (entry: "ManifestRouteEntry option")

definition createTrieNode :: TrieNode where
  "createTrieNode = TrieNode [] None None None"

definition splitSegments :: "string \<Rightarrow> string list" where
  "splitSegments v =
     (if v = ''/'' then []
      else (let normalized = (if endsWith v ''/'' \<and> v \<noteq> ''/'' then butlast v else v)
            in filter (\<lambda>s. s \<noteq> []) (split CHR ''/'' normalized)))"

text \<open>
  The body of the insertion loop of \<open>buildMatcher\<close> for one route: the walk of \<open>current\<close> down
  the trie along the pattern's segments, creating the nodes that are missing, written as a
  recursion that returns the updated node.  A segment starting with \<open>*\<close> stores the catch-all
  on the current node and stops the walk (\<open>break\<close>), leaving that node's \<open>entry\<close> alone.
\<close>

fun insertSegments :: "ManifestRouteEntry \<Rightarrow> string list \<Rightarrow> TrieNode \<Rightarrow> TrieNode" where
  "insertSegments e [] current =
     TrieNode (staticChildren current) (dynamicChild current) (catchAllChild current) (Some e)"
| "insertSegments e (segment # rest) current =
     (if startsWith segment ''*'' then
        TrieNode (staticChildren current) (dynamicChild current)
          (Some (drop 1 segment, e)) (entry current)
      else if startsWith segment '':'' then
        (case dynamicChild current of
           None \<Rightarrow>
             TrieNode (staticChildren current)
               (Some (drop 1 segment, insertSegments e rest createTrieNode))
               (catchAllChild current) (entry current)
         | Some (paramName, node) \<Rightarrow>
             TrieNode (staticChildren current)
               (Some (paramName, insertSegments e rest node))
               (catchAllChild current) (entry current))
      else
        (case map_of (staticChildren current) segment of
           None \<Rightarrow>
             TrieNode (AList.update segment (insertSegments e rest createTrieNode)
                         (staticChildren current))
               (dynamicChild current) (catchAllChild current) (entry current)
         | Some child \<Rightarrow>
             TrieNode (AList.update segment (insertSegments e rest child)
                         (staticChildren current))
               (dynamicChild current) (catchAllChild current) (entry current)))"

text \<open>
  \<open>buildMatcher(routes)\<close>: \<open>Object.values(routes)\<close> is the list of entries in insertion order;
  the result is the root node of the trie (\<open>root\<close> in the source) that the returned
  \<open>match\<close> closes over.
\<close>

definition buildMatcher :: "ManifestRouteEntry list \<Rightarrow> TrieNode" where
  "buildMatcher routes =
     foldl (\<lambda>rootNode e. insertSegments e (splitSegments (pattern e)) rootNode) createTrieNode routes"

type_synonym params = "string \<rightharpoonup> string"

text \<open>
  \<open>params\<close> is a plain object (\<open>{}\<close>), modelled by the map of its own properties.  The
  assignment \<open>params[name] = v\<close> makes \<open>v\<close> the value of the own property \<open>name\<close>, with one
  exception of plain objects: for the name \<open>__proto__\<close>, when the object has no own property
  of that name, the assignment reaches the setter inherited from \<open>Object.prototype\<close>, which
  ignores a string, and the object stays as it is.  \<open>delete params[name]\<close> removes the own
  property.
\<close>

definition setParam :: "params \<Rightarrow> string \<Rightarrow> string \<Rightarrow> params" where
  "setParam ps name v = (if name = ''__proto__'' \<and> ps name = None then ps else ps(name \<mapsto> v))"

text \<open>
  \<open>matchSegments(node, segments, index, params)\<close>.  The pair (\<open>segments\<close>, \<open>index\<close>) is carried
  as the remaining suffix \<open>segments.slice(index)\<close>: \<open>index === segments.length\<close> is the empty
  suffix and \<open>segments[index]\<close> its head.  The \<open>params\<close> object is mutated in place by the source,
  so the model returns it next to the result.
\<close>

fun matchSegments ::
  "TrieNode \<Rightarrow> string list \<Rightarrow> params \<Rightarrow> ManifestRouteEntry option \<times> params" where
  "matchSegments node [] ps = (entry node, ps)"
| "matchSegments node (segment # rest) ps =
     (let (r1, ps1) =
        (case map_of (staticChildren node) segment of
           None \<Rightarrow> (None, ps)
         | Some staticChild \<Rightarrow> matchSegments staticChild rest ps)
      in if r1 \<noteq> None then (r1, ps1)
         else
           (let (r2, ps2) =
              (case dynamicChild node of
                 None \<Rightarrow> (None, ps1)
               | Some (paramName, dynamicNode) \<Rightarrow>
                   (let (r, ps') = matchSegments dynamicNode rest (setParam ps1 paramName segment)
                    in if r \<noteq> None then (r, ps') else (None, ps'(paramName := None))))
            in if r2 \<noteq> None then (r2, ps2)
               else
                 (case catchAllChild node of
                    Some (paramName, e) \<Rightarrow>
                      (Some e, setParam ps2 paramName (join ''/'' (segment # rest)))
                  | None \<Rightarrow> (None, ps2))))"

definition match :: "TrieNode \<Rightarrow> string \<Rightarrow> (ManifestRouteEntry \<times> params) option" where
  "match rootNode pathname =
     (let segments = splitSegments pathname;
          (r, ps) = matchSegments rootNode segments Map.empty
      in case r of None \<Rightarrow> None | Some e \<Rightarrow> Some (e, ps))"



section \<open>Route patterns and their priority\<close>

text \<open>
  What a registered pattern means, independently of the trie.  A pattern segment is a literal,
  a parameter (\<open>:name\<close>) or a catch-all (\<open>*name\<close>); \<open>buildMatcher\<close> stops reading a pattern at
  its first catch-all segment, and it files parameters under one shared child whatever their
  names, so the \<^emph>\<open>shape\<close> of a pattern is its list of segment kinds up to and including the
  first catch-all.
\<close>

datatype seg_kind = Literal string | Param | CatchAll

fun shape_of :: "string list \<Rightarrow> seg_kind list" where
  "shape_of [] = []"
| "shape_of (segment # rest) =
     (if startsWith segment ''*'' then [CatchAll]
      else if startsWith segment '':'' then Param # shape_of rest
      else Literal segment # shape_of rest)"

text \<open>The parameter name of the first catch-all segment, as \<open>segment.slice(1)\<close>.\<close>

fun catch_name :: "string list \<Rightarrow> string option" where
  "catch_name [] = None"
| "catch_name (segment # rest) =
     (if startsWith segment ''*'' then Some (drop 1 segment) else catch_name rest)"

text \<open>
  A shape matches a list of path segments when literals are equal to their segment, a
  parameter takes exactly one segment and a catch-all takes all the remaining segments, of
  which there must be at least one.
\<close>

fun shape_matches :: "seg_kind list \<Rightarrow> string list \<Rightarrow> bool" where
  "shape_matches [] segs = (segs = [])"
| "shape_matches (Literal s # ks) segs =
     (case segs of [] \<Rightarrow> False | x # xs \<Rightarrow> s = x \<and> shape_matches ks xs)"
| "shape_matches (Param # ks) segs =
     (case segs of [] \<Rightarrow> False | x # xs \<Rightarrow> shape_matches ks xs)"
| "shape_matches (CatchAll # ks) segs = (ks = [] \<and> segs \<noteq> [])"

text \<open>
  The priority order of the spec: at the first position where two shapes differ, a literal
  outranks a parameter and a parameter outranks a catch-all.
\<close>

fun rank :: "seg_kind \<Rightarrow> nat" where
  "rank (Literal s) = 0" | "rank Param = 1" | "rank CatchAll = 2"

fun outranks_eq :: "seg_kind list \<Rightarrow> seg_kind list \<Rightarrow> bool" where
  "outranks_eq [] ks' = True"
| "outranks_eq (k # ks) [] = False"
| "outranks_eq (k # ks) (k' # ks') =
     (rank k < rank k' \<or> (rank k = rank k' \<and> outranks_eq ks ks'))"

text \<open>
  The route filed in a trie under a shape, with the catch-all parameter name kept next to it:
  the abstraction function of the trie.
\<close>

fun stored :: "TrieNode \<Rightarrow> seg_kind list \<Rightarrow> (ManifestRouteEntry \<times> string option) option" where
  "stored node [] = map_option (\<lambda>e. (e, None)) (entry node)"
| "stored node (CatchAll # ks) =
     (if ks = [] then map_option (\<lambda>(n, e). (e, Some n)) (catchAllChild node) else None)"
| "stored node (Param # ks) =
     (case dynamicChild node of None \<Rightarrow> None | Some (n, child) \<Rightarrow> stored child ks)"
| "stored node (Literal s # ks) =
     (case map_of (staticChildren node) s of None \<Rightarrow> None | Some child \<Rightarrow> stored child ks)"


text \<open>
  The three attempts of \<open>matchSegments\<close> at a node, in the order of the source (its comments
  number them 1, 2, 3), named so that theorems can speak about each of them.
\<close>

definition tryStatic :: "TrieNode \<Rightarrow> string \<Rightarrow> string list \<Rightarrow> params \<Rightarrow> ManifestRouteEntry option \<times> params" where
  "tryStatic node segment rest ps =
     (case map_of (staticChildren node) segment of
        None \<Rightarrow> (None, ps)
      | Some staticChild \<Rightarrow> matchSegments staticChild rest ps)"

definition tryDynamic :: "TrieNode \<Rightarrow> string \<Rightarrow> string list \<Rightarrow> params \<Rightarrow> ManifestRouteEntry option \<times> params" where
  "tryDynamic node segment rest ps =
     (case dynamicChild node of
        None \<Rightarrow> (None, ps)
      | Some (paramName, dynamicNode) \<Rightarrow>
          (let (r, ps') = matchSegments dynamicNode rest (setParam ps paramName segment)
           in if r \<noteq> None then (r, ps') else (None, ps'(paramName := None))))"

definition tryCatchAll :: "TrieNode \<Rightarrow> string list \<Rightarrow> params \<Rightarrow> ManifestRouteEntry option \<times> params" where
  "tryCatchAll node remaining ps =
     (case catchAllChild node of
        Some (paramName, e) \<Rightarrow> (Some e, setParam ps paramName (join ''/'' remaining))
      | None \<Rightarrow> (None, ps))"

definition route_shape :: "ManifestRouteEntry \<Rightarrow> seg_kind list" where
  "route_shape e = shape_of (splitSegments (pattern e))"

definition route_catch_name :: "ManifestRouteEntry \<Rightarrow> string option" where
  "route_catch_name e = catch_name (splitSegments (pattern e))"


text \<open>
  \<open>isCatchAll\<close> is the flag of the insertion loop: set when a segment starting with \<open>*\<close> is
  met.  \<open>catchAllBase\<close> is the list of segments in front of that segment.
\<close>

definition isCatchAll :: "ManifestRouteEntry \<Rightarrow> bool" where
  "isCatchAll e = (\<exists>segment \<in> set (splitSegments (pattern e)). startsWith segment ''*'')"





section \<open>Numbers as text\<close>

text \<open>
  Template literals and \<open>toFixed\<close> turn numbers into decimal text.  The numbers that reach the
  modelled code are integers (cache ages, byte counts).  An integer of magnitude below \<open>2^53\<close>
  is a Number value, and JavaScript prints it as its plain decimal digits, with a minus sign
  when negative.  \<open>numberToString\<close> is Number-to-String on that range only: a larger integer
  need not be a Number value, and the text of the nearest one has other digits or, from
  \<open>10^21\<close>, an exponent.  \<open>safeInteger\<close> is the range.
\<close>

definition digitChar :: "nat \<Rightarrow> char" where
  "digitChar d = ''0123456789'' ! d"

fun natToString :: "nat \<Rightarrow> string" where
  "natToString n =
     (if n < 10 then [digitChar n] else natToString (n div 10) @ [digitChar (n mod 10)])"

declare natToString.simps [simp del]

definition numberToString :: "int \<Rightarrow> string" where
  "numberToString i =
     (if i < 0 then ''-'' @ natToString (nat (- i)) else natToString (nat i))"

definition safeInteger :: "int \<Rightarrow> bool" where
  "safeInteger i = (- (2 ^ 53) < i \<and> i < 2 ^ 53)"

text \<open>
  \<open>x.toFixed(1)\<close> for \<open>0 \<le> x < 10^21\<close>, as ECMAScript defines it: with \<open>n\<close> the integer for which
  \<open>n / 10 - x\<close> is as close to zero as possible (the larger one if there are two), the digits
  of \<open>n\<close> with a point in front of the last one.  The argument is the exact value of the
  number, here a rational.
\<close>

definition toFixed1 :: "rat \<Rightarrow> string" where
  "toFixed1 x =
     (let n = nat \<lfloor>x * 10 + 1 / 2\<rfloor>
      in natToString (n div 10) @ ''.'' @ natToString (n mod 10))"

section \<open>Cache-Control header (prod-server: buildCacheControlHeader)\<close>

definition buildCacheControlHeader :: "CacheConfig option \<Rightarrow> string" where
  "buildCacheControlHeader cacheOpt =
     (case cacheOpt of
        None \<Rightarrow> ''no-cache''
      | Some c \<Rightarrow>
          (let parts0 = [''public''];
               parts1 = (case maxAge c of
                           Some n \<Rightarrow> parts0 @ [''max-age='' @ numberToString n]
                         | None \<Rightarrow> parts0);
               parts2 = (case sMaxAge c of
                           Some n \<Rightarrow> parts1 @ [''s-maxage='' @ numberToString n]
                         | None \<Rightarrow> parts1);
               parts3 = (case staleWhileRevalidate c of
                           Some n \<Rightarrow> parts2 @ [''stale-while-revalidate='' @ numberToString n]
                         | None \<Rightarrow> parts2)
           in if length parts3 = 1 then ''no-cache'' else join '', '' parts3))"

text \<open>
  The directives of the spec's wording: one for each field that is present, in the order
  max-age, s-maxage, stale-while-revalidate.
\<close>

definition cacheDirectives :: "CacheConfig \<Rightarrow> string list" where
  "cacheDirectives c =
     (case maxAge c of Some n \<Rightarrow> [''max-age='' @ numberToString n] | None \<Rightarrow> [])
     @ (case sMaxAge c of Some n \<Rightarrow> [''s-maxage='' @ numberToString n] | None \<Rightarrow> [])
     @ (case staleWhileRevalidate c of
          Some n \<Rightarrow> [''stale-while-revalidate='' @ numberToString n] | None \<Rightarrow> [])"

text \<open>Every field of the cache config that is present is an integer in the exact range.\<close>

definition safeIntegerFields :: "CacheConfig \<Rightarrow> bool" where
  "safeIntegerFields c =
     ((case maxAge c of Some n \<Rightarrow> safeInteger n | None \<Rightarrow> True)
      \<and> (case sMaxAge c of Some n \<Rightarrow> safeInteger n | None \<Rightarrow> True)
      \<and> (case staleWhileRevalidate c of Some n \<Rightarrow> safeInteger n | None \<Rightarrow> True))"

section \<open>Build report (build orchestrator: formatSize)\<close>

text \<open>
  \<open>bytes\<close> is a sum of the byte sizes of emitted files, a natural number.  Below \<open>2^53\<close> the
  quotient \<open>bytes / 1024\<close> is exact in double precision (a division by a power of two), so \<open>kb\<close>
  is the rational \<open>bytes / 1024\<close>.
\<close>

definition formatSize :: "nat \<Rightarrow> string" where
  "formatSize bytes =
     (if bytes = 0 then ''-''
      else (let kb = (of_nat bytes :: rat) / 1024
            in if kb < 1 then natToString bytes @ '' B''
               else toFixed1 kb @ '' KB''))"



section \<open>Build orchestrator: exports of API routes and the manifest\<close>

text \<open>
  Modelled from the spec: \<open>HTTP_METHODS\<close> is declared in the shared package, which is not part
  of the sources; the spec lists the recognized methods as GET, POST, PUT, DELETE, PATCH,
  HEAD, OPTIONS.
\<close>

definition HTTP_METHODS :: "string list" where
  "HTTP_METHODS = [''GET'', ''POST'', ''PUT'', ''DELETE'', ''PATCH'', ''HEAD'', ''OPTIONS'']"

text \<open>
  Modelled from the spec: \<open>RouteNode\<close> is declared in the shared package; these are the fields
  of the spec's data model that the build orchestrator reads.
\<close>

record RouteNode =
  route_id :: string
  route_pattern :: string
  route_type :: RouteType
  filePath :: string
  layoutId :: "string option"
  middlewarePaths :: "string list"

text \<open>
  The functions of \<open>node:path\<close> that the modelled code calls are parameters of the model.
  \<open>pathRelative\<close> stands for \<open>path.relative(from, to).split(path.sep).join('/')\<close>.
\<close>

record PathApi =
  pathResolve :: "string \<Rightarrow> string \<Rightarrow> string"
  pathRelative :: "string \<Rightarrow> string \<Rightarrow> string"
  pathJoin :: "string \<Rightarrow> string \<Rightarrow> string"

text \<open>The fields of an output of the bundler's metafile that the code reads.\<close>

record OutputMeta =
  entryPoint :: "string option"
  exports :: "string list option"

text \<open>
  Step 7 of \<open>build\<close> and \<open>buildServerOutputMap\<close> walk the outputs of the server metafile and
  begin with the same two \<open>continue\<close>s: an output without (truthy) \<open>entryPoint\<close> is skipped, and
  so is one whose resolved entry point is not the file of a route.
\<close>

definition outputRouteInfo ::
  "PathApi \<Rightarrow> string \<Rightarrow> (string \<rightharpoonup> string \<times> RouteType) \<Rightarrow> OutputMeta
     \<Rightarrow> (string \<times> RouteType) option" where
  "outputRouteInfo paths rootDir serverEntryRouteMap outputMeta =
     (case entryPoint outputMeta of
        None \<Rightarrow> None
      | Some ep \<Rightarrow>
          if ep = [] then None else serverEntryRouteMap (pathResolve paths rootDir ep))"

text \<open>
  Step 7 of \<open>build\<close>, as far as \<open>apiMethodsMap\<close> goes: the branch for API routes, where
  \<open>exportedMethods\<close> is \<open>(outputMeta.exports || []).filter(e => HTTP_METHODS.includes(e))\<close>.
  (The branch for pages fills \<open>hasLoadMap\<close>, \<open>prerenderMap\<close> and \<open>cacheMap\<close> and does not
  touch \<open>apiMethodsMap\<close>.)
\<close>

definition exportedMethods :: "OutputMeta \<Rightarrow> string list" where
  "exportedMethods outputMeta =
     (let exps = (case exports outputMeta of None \<Rightarrow> [] | Some xs \<Rightarrow> xs)
      in filter (\<lambda>e. e \<in> set HTTP_METHODS) exps)"

definition detectApiMethodsStep ::
  "PathApi \<Rightarrow> string \<Rightarrow> (string \<rightharpoonup> string \<times> RouteType) \<Rightarrow> (string \<rightharpoonup> string list)
     \<Rightarrow> string \<times> OutputMeta \<Rightarrow> (string \<rightharpoonup> string list)" where
  "detectApiMethodsStep paths rootDir serverEntryRouteMap apiMethodsMap output =
     (case outputRouteInfo paths rootDir serverEntryRouteMap (snd output) of
        None \<Rightarrow> apiMethodsMap
      | Some (routeId, t) \<Rightarrow>
          if t = Page then apiMethodsMap
          else
            (let ms = exportedMethods (snd output)
             in if length ms > 0 then apiMethodsMap(routeId \<mapsto> ms) else apiMethodsMap))"

definition detectApiMethods ::
  "PathApi \<Rightarrow> string \<Rightarrow> (string \<rightharpoonup> string \<times> RouteType) \<Rightarrow> (string \<times> OutputMeta) list
     \<Rightarrow> (string \<rightharpoonup> string list)" where
  "detectApiMethods paths rootDir serverEntryRouteMap outputs =
     foldl (detectApiMethodsStep paths rootDir serverEntryRouteMap) Map.empty outputs"

definition buildServerOutputMap ::
  "PathApi \<Rightarrow> (string \<times> OutputMeta) list \<Rightarrow> (string \<rightharpoonup> string \<times> RouteType) \<Rightarrow> string
     \<Rightarrow> string \<Rightarrow> (string \<rightharpoonup> string)" where
  "buildServerOutputMap paths outputs entryRouteMap serverOutDir rootDir =
     foldl (\<lambda>result output.
              case outputRouteInfo paths rootDir entryRouteMap (snd output) of
                None \<Rightarrow> result
              | Some (routeId, t) \<Rightarrow>
                  result(routeId \<mapsto>
                    pathRelative paths serverOutDir (pathResolve paths rootDir (fst output))))
       Map.empty outputs"

text \<open>The client output of a route, as \<open>buildClientOutputMap\<close> records it.\<close>

record ClientOutput =
  out_entry :: string
  out_chunks :: "string list"
  out_css :: "string list"

text \<open>
  \<open>assembleManifest\<close>: the entry written for a page route and for an API route, and the
  \<open>routes\<close> object, filled for the page routes first and for the API routes after them.
\<close>

definition pageManifestEntry ::
  "(string \<rightharpoonup> ClientOutput) \<Rightarrow> (string \<rightharpoonup> string) \<Rightarrow> (string \<rightharpoonup> bool)
     \<Rightarrow> (string \<rightharpoonup> CacheConfig) \<Rightarrow> RouteNode \<Rightarrow> ManifestRouteEntry" where
  "pageManifestEntry clientOutputMap serverOutputMap hasLoadMap cacheMap route =
     \<lparr>entry_id = route_id route,
      pattern = route_pattern route,
      entry_type = Page,
      clientEntry = map_option out_entry (clientOutputMap (route_id route)),
      clientChunks =
        (case clientOutputMap (route_id route) of
           None \<Rightarrow> None
         | Some co \<Rightarrow> if length (out_chunks co) \<noteq> 0 then Some (out_chunks co) else None),
      css =
        (case clientOutputMap (route_id route) of
           None \<Rightarrow> None
         | Some co \<Rightarrow> if length (out_css co) \<noteq> 0 then Some (out_css co) else None),
      ssrEntry = serverOutputMap (route_id route),
      serverEntry = None,
      hasLoad = Some (case hasLoadMap (route_id route) of None \<Rightarrow> False | Some b \<Rightarrow> b),
      methods = None,
      prerendered = None,
      prerenderedFile = None,
      prerenderedCount = None,
      cache = cacheMap (route_id route),
      layouts =
        (case layoutId route of
           None \<Rightarrow> None
         | Some l \<Rightarrow> if l \<noteq> [] then Some [l] else None),
      middleware =
        (if length (middlewarePaths route) \<noteq> 0 then Some (middlewarePaths route) else None)\<rparr>"

definition apiManifestEntry ::
  "(string \<rightharpoonup> string) \<Rightarrow> (string \<rightharpoonup> string list) \<Rightarrow> RouteNode \<Rightarrow> ManifestRouteEntry" where
  "apiManifestEntry serverOutputMap apiMethodsMap route =
     \<lparr>entry_id = route_id route,
      pattern = route_pattern route,
      entry_type = Api,
      clientEntry = None,
      clientChunks = None,
      css = None,
      ssrEntry = None,
      serverEntry = serverOutputMap (route_id route),
      hasLoad = None,
      methods = apiMethodsMap (route_id route),
      prerendered = None,
      prerenderedFile = None,
      prerenderedCount = None,
      cache = None,
      layouts = None,
      middleware =
        (if length (middlewarePaths route) \<noteq> 0 then Some (middlewarePaths route) else None)\<rparr>"

definition assembleManifestRoutes ::
  "RouteNode list \<Rightarrow> RouteNode list \<Rightarrow> (string \<rightharpoonup> ClientOutput) \<Rightarrow> (string \<rightharpoonup> string)
     \<Rightarrow> (string \<rightharpoonup> bool) \<Rightarrow> (string \<rightharpoonup> string list) \<Rightarrow> (string \<rightharpoonup> CacheConfig)
     \<Rightarrow> (string \<rightharpoonup> ManifestRouteEntry)" where
  "assembleManifestRoutes pageRoutes apiRoutes clientOutputMap serverOutputMap hasLoadMap
       apiMethodsMap cacheMap =
     foldl (\<lambda>routes route.
              routes(route_id route \<mapsto> apiManifestEntry serverOutputMap apiMethodsMap route))
       (foldl (\<lambda>routes route.
                 routes(route_id route \<mapsto>
                   pageManifestEntry clientOutputMap serverOutputMap hasLoadMap cacheMap route))
          Map.empty pageRoutes)
       apiRoutes"

text \<open>
  Steps 7 and 8 of \<open>build\<close> put together for the \<open>routes\<close> of the manifest: the methods and
  the server entries come from the outputs of the server metafile; \<open>hasLoadMap\<close> and
  \<open>cacheMap\<close>, filled by the page branch of step 7, are taken as they are.
\<close>

definition buildManifestRoutes ::
  "PathApi \<Rightarrow> string \<Rightarrow> string \<Rightarrow> (string \<rightharpoonup> string \<times> RouteType)
     \<Rightarrow> (string \<times> OutputMeta) list \<Rightarrow> RouteNode list \<Rightarrow> RouteNode list
     \<Rightarrow> (string \<rightharpoonup> ClientOutput) \<Rightarrow> (string \<rightharpoonup> bool) \<Rightarrow> (string \<rightharpoonup> CacheConfig)
     \<Rightarrow> (string \<rightharpoonup> ManifestRouteEntry)" where
  "buildManifestRoutes paths rootDir serverOutDir serverEntryRouteMap outputs pageRoutes apiRoutes
       clientOutputMap hasLoadMap cacheMap =
     assembleManifestRoutes pageRoutes apiRoutes clientOutputMap
       (buildServerOutputMap paths outputs serverEntryRouteMap serverOutDir rootDir)
       hasLoadMap
       (detectApiMethods paths rootDir serverEntryRouteMap outputs)
       cacheMap"

section \<open>Production server: API routes (handleApiRouteInner)\<close>

text \<open>
  A Web \<open>Response\<close>: status, headers as written, and a body.  A body produced by
  \<open>JSON.stringify\<close> is kept as the JSON value that is serialised.
\<close>

datatype JsonValue =
    JsonString string
  | JsonArray "JsonValue list"
  | JsonObject "(string \<times> JsonValue) list"

datatype Body = TextBody string | JsonBody JsonValue

record Response =
  status :: nat
  headers :: "(string \<times> string) list"
  body :: Body

text \<open>
  What a compiled server module exports under a name: a function (an asynchronous handler,
  which returns a response or throws: \<open>None\<close>), or a value that is not a function.
\<close>

datatype 'ctx ExportValue = Function "'ctx \<Rightarrow> Response option" | NotFunction

type_synonym 'ctx ServerModule = "string \<rightharpoonup> 'ctx ExportValue"

text \<open>\<open>toUpperCase\<close>, on the ASCII letters that HTTP method names are made of.\<close>

definition toUpperCase :: "string \<Rightarrow> string" where
  "toUpperCase s =
     map (\<lambda>c. case map_of (zip ''abcdefghijklmnopqrstuvwxyz'' ''ABCDEFGHIJKLMNOPQRSTUVWXYZ'') c of
                 None \<Rightarrow> c | Some u \<Rightarrow> u) s"

text \<open>\<open>(req.method || "GET").toUpperCase()\<close>, with \<open>req.method\<close> possibly undefined.\<close>

definition requestedMethod :: "string option \<Rightarrow> string" where
  "requestedMethod reqMethod =
     toUpperCase (case reqMethod of None \<Rightarrow> ''GET'' | Some m \<Rightarrow> if m = [] then ''GET'' else m)"

text \<open>
  \<open>handleApiRouteInner(req, ctx, match)\<close>.  \<open>reqMethod\<close> is \<open>req.method\<close>; \<open>importModule\<close> is the
  cached dynamic import, \<open>None\<close> when it throws.  The result is \<open>None\<close> when an exception leaves
  the function (a failed import, a handler that throws).  The entry is the one of the manifest:
  the server reads the manifest that the build wrote as JSON, which keeps the strings and
  lists of an entry and leaves out the fields that are undefined.
\<close>

definition handleApiRouteInner ::
  "PathApi \<Rightarrow> string \<Rightarrow> (string \<Rightarrow> 'ctx ServerModule option) \<Rightarrow> string option \<Rightarrow> 'ctx
     \<Rightarrow> ManifestRouteEntry \<Rightarrow> Response option" where
  "handleApiRouteInner paths serverDir importModule reqMethod ctx e =
     (let method = requestedMethod reqMethod;
          allowedMethods = (case methods e of None \<Rightarrow> [] | Some ms \<Rightarrow> ms)
      in if method \<notin> set allowedMethods then
           Some \<lparr>status = 405,
                 headers = [(''Content-Type'', ''application/json''),
                            (''Allow'', join '', '' allowedMethods)],
                 body = JsonBody (JsonObject
                          [(''error'', JsonString (''Method '' @ method @ '' not allowed'')),
                           (''allowed'', JsonArray (map JsonString allowedMethods))])\<rparr>
         else if serverEntry e = None \<or> serverEntry e = Some [] then
           Some \<lparr>status = 500,
                 headers = [(''Content-Type'', ''text/plain'')],
                 body = TextBody (''API route \"'' @ entry_id e
                                   @ ''\" has no server entry in the manifest.'')\<rparr>
         else
           (case importModule (pathJoin paths serverDir (the (serverEntry e))) of
              None \<Rightarrow> None
            | Some serverMod \<Rightarrow>
                (case serverMod method of
                   Some (Function handler) \<Rightarrow> handler ctx
                 | _ \<Rightarrow>
                     Some \<lparr>status = 500,
                           headers = [(''Content-Type'', ''text/plain'')],
                           body = TextBody (''API route \"'' @ entry_id e
                                             @ ''\" does not export a '' @ method
                                             @ '' handler.'')\<rparr>)))"

section \<open>Build orchestrator: the prerendering pass (step 9 of build)\<close>

text \<open>
  \<open>s.indexOf(pat)\<close> and \<open>s.replace(pat, replacement)\<close> for a string pattern: the first
  occurrence is replaced, and in the replacement text \<open>$$\<close>, \<open>$&\<close>, \<open>$`\<close> and \<open>$'\<close> stand for a
  dollar sign, the matched text, the text before it and the text after it (a string pattern
  has no captures, so every other \<open>$\<close> is literal).
\<close>

fun indexOf :: "string \<Rightarrow> string \<Rightarrow> nat option" where
  "indexOf [] pat = (if pat = [] then Some 0 else None)"
| "indexOf (c # cs) pat =
     (if startsWith (c # cs) pat then Some 0 else map_option Suc (indexOf cs pat))"

fun getSubstitution :: "string \<Rightarrow> string \<Rightarrow> string \<Rightarrow> string \<Rightarrow> string" where
  "getSubstitution matched preceding following [] = []"
| "getSubstitution matched preceding following [c] = [c]"
| "getSubstitution matched preceding following (c # d # rest) =
     (if c = CHR ''$'' \<and> d = CHR ''$'' then CHR ''$'' # getSubstitution matched preceding following rest
      else if c = CHR ''$'' \<and> d = CHR ''&'' then matched @ getSubstitution matched preceding following rest
      else if c = CHR ''$'' \<and> d = CHR 0x60 then preceding @ getSubstitution matched preceding following rest
      else if c = CHR ''$'' \<and> d = CHR 0x27 then following @ getSubstitution matched preceding following rest
      else c # getSubstitution matched preceding following (d # rest))"

definition replaceFirst :: "string \<Rightarrow> string \<Rightarrow> string \<Rightarrow> string" where
  "replaceFirst s pat replacement =
     (case indexOf s pat of
        None \<Rightarrow> s
      | Some i \<Rightarrow>
          take i s
          @ getSubstitution pat (take i s) (drop (i + length pat) s) replacement
          @ drop (i + length pat) s)"

text \<open>
  A parameter set is an object of strings; \<open>Object.entries\<close> lists it in property order.  The
  \<open>prerender\<close> export of a page is \<open>true\<close> or an object with a \<open>paths()\<close> function, which the
  pass calls once: the model keeps the outcome of that call, the list of parameter sets or
  \<open>None\<close> when it throws.
\<close>

type_synonym ParamSet = "(string \<times> string) list"

datatype PrerenderConfig = PrerenderTrue | PrerenderPaths "ParamSet list option"

text \<open>
  A compiled page module, as far as the pass looks at it: the default export (the component;
  \<open>None\<close> when missing), and \<open>load\<close> when it is a function.  \<open>load\<close> gets the build-time request
  context made of the pathname, the parameters and the route id; it returns a \<open>Response\<close>, or
  data, or throws (\<open>None\<close>).
\<close>

datatype 'd LoadResult = LoadResponse | LoadData 'd

record ('c, 'd) PageModule =
  default_export :: "'c option"
  load_export :: "(string \<times> ParamSet \<times> string \<Rightarrow> 'd LoadResult option) option"

text \<open>
  What the pass takes from its surroundings: the map from route ids to the paths of the
  compiled server modules (filled in step 7), the import of such a module (these modules
  were imported in step 7 already, so the import returns the loaded module), and the document
  written for a page: \<open>adapter.renderToHTML\<close> with the assembly of the shell, head tags, data
  script and hydration script around its result, a function of the component, the data, the
  pathname, the parameters and the manifest entry; \<open>None\<close> when the adapter throws.
\<close>

record ('c, 'd) PrerenderEnv =
  serverOutputPathMap :: "string \<rightharpoonup> string"
  importServerModule :: "string \<Rightarrow> ('c, 'd) PageModule"
  renderDocument :: "'c \<Rightarrow> 'd option \<Rightarrow> string \<Rightarrow> ParamSet \<Rightarrow> ManifestRouteEntry \<Rightarrow> string option"

datatype Warning = NoDefaultExport string

text \<open>
  The state the pass works on: the \<open>routes\<close> of the manifest (entries are updated in place),
  the files written under \<open>dist/client\<close> in the order of the writes, the warnings logged, and
  the manifest file once it is written.
\<close>

record BuildState =
  manifestRoutes :: "string \<rightharpoonup> ManifestRouteEntry"
  files :: "(string \<times> string) list"
  warnings :: "Warning list"
  manifestFile :: "(string \<rightharpoonup> ManifestRouteEntry) option"

text \<open>The concrete pathname of a page and the path of its HTML file.\<close>

definition concretePathname :: "string \<Rightarrow> ParamSet \<Rightarrow> string" where
  "concretePathname routePattern ps =
     foldl (\<lambda>pathname (key, v). replaceFirst pathname ('':'' @ key) v) routePattern ps"

definition htmlRelPathOf :: "string \<Rightarrow> string" where
  "htmlRelPathOf pathname =
     (if pathname = ''/'' then ''index.html'' else drop 1 pathname @ ''/index.html'')"

text \<open>
  The body of the loop over the parameter sets, up to the write: \<open>Some None\<close> when \<open>load\<close>
  returns a \<open>Response\<close> (\<open>continue\<close>), \<open>Some (Some (path, html))\<close> for a page to write, \<open>None\<close>
  when \<open>load\<close> or the adapter throws.
\<close>

definition prerenderPage ::
  "('c, 'd) PrerenderEnv \<Rightarrow> ManifestRouteEntry \<Rightarrow> string \<Rightarrow> ('c, 'd) PageModule \<Rightarrow> 'c \<Rightarrow> ParamSet
     \<Rightarrow> (string \<times> string) option option" where
  "prerenderPage env e routeId pageMod component ps =
     (let pathname = concretePathname (pattern e) ps;
          loaded =
            (if hasLoad e = Some True \<and> load_export pageMod \<noteq> None
             then (case the (load_export pageMod) (pathname, ps, routeId) of
                     None \<Rightarrow> None
                   | Some LoadResponse \<Rightarrow> Some None
                   | Some (LoadData d) \<Rightarrow> Some (Some (Some d)))
             else Some (Some None))
      in case loaded of
           None \<Rightarrow> None
         | Some None \<Rightarrow> Some None
         | Some (Some dat) \<Rightarrow>
             (case renderDocument env component dat pathname ps e of
                None \<Rightarrow> None
              | Some html \<Rightarrow> Some (Some (htmlRelPathOf pathname, html))))"

text \<open>
  The loop over the parameter sets of one route, with \<open>renderedCount\<close>, the \<open>prerenderedFile\<close>
  field of the entry and the files written as its state; \<open>single\<close> is
  \<open>paramSets.length === 1\<close>.
\<close>

fun renderParamSets ::
  "('c, 'd) PrerenderEnv \<Rightarrow> ManifestRouteEntry \<Rightarrow> string \<Rightarrow> ('c, 'd) PageModule \<Rightarrow> 'c \<Rightarrow> bool
     \<Rightarrow> ParamSet list \<Rightarrow> nat \<times> string option \<times> (string \<times> string) list
     \<Rightarrow> (nat \<times> string option \<times> (string \<times> string) list) option" where
  "renderParamSets env e routeId pageMod component single [] acc = Some acc"
| "renderParamSets env e routeId pageMod component single (ps # rest)
       (renderedCount, file, written) =
     (case prerenderPage env e routeId pageMod component ps of
        None \<Rightarrow> None
      | Some None \<Rightarrow>
          renderParamSets env e routeId pageMod component single rest
            (renderedCount, file, written)
      | Some (Some (htmlRelPath, html)) \<Rightarrow>
          renderParamSets env e routeId pageMod component single rest
            (renderedCount + 1,
             (if single then Some htmlRelPath else file),
             written @ [(htmlRelPath, html)]))"

text \<open>
  The parameter sets of a route: one empty set for \<open>prerender = true\<close>, the result of
  \<open>paths()\<close> otherwise.
\<close>

definition paramSetsOf :: "PrerenderConfig \<Rightarrow> ParamSet list option" where
  "paramSetsOf prerenderConfig =
     (case prerenderConfig of PrerenderTrue \<Rightarrow> Some [[]] | PrerenderPaths result \<Rightarrow> result)"

text \<open>The body of the loop over \<open>prerenderMap\<close>, for one route.\<close>

definition prerenderRoute ::
  "('c, 'd) PrerenderEnv \<Rightarrow> BuildState \<Rightarrow> string \<times> PrerenderConfig \<Rightarrow> BuildState option" where
  "prerenderRoute env st item =
     (let routeId = fst item; prerenderConfig = snd item
      in case manifestRoutes st routeId of
           None \<Rightarrow> Some st
         | Some e \<Rightarrow>
             if entry_type e \<noteq> Page then Some st
             else if serverOutputPathMap env routeId = None
                     \<or> serverOutputPathMap env routeId = Some [] then Some st
             else
               (let pageMod = importServerModule env (the (serverOutputPathMap env routeId))
                in case default_export pageMod of
                     None \<Rightarrow> Some (st\<lparr>warnings := warnings st @ [NoDefaultExport routeId]\<rparr>)
                   | Some component \<Rightarrow>
                       (case paramSetsOf prerenderConfig of
                          None \<Rightarrow> None
                        | Some paramSets \<Rightarrow>
                            (case renderParamSets env e routeId pageMod component
                                    (length paramSets = 1) paramSets
                                    (0, prerenderedFile e, files st) of
                               None \<Rightarrow> None
                             | Some (renderedCount, file, written) \<Rightarrow>
                                 Some (st\<lparr>manifestRoutes := (manifestRoutes st)(routeId \<mapsto>
                                             e\<lparr>prerenderedFile := file,
                                               prerendered := Some True,
                                               prerenderedCount :=
                                                 (if length paramSets > 1 then Some renderedCount
                                                  else prerenderedCount e)\<rparr>),
                                          files := written\<rparr>)))))"

text \<open>
  Step 9, and step 9 followed by the write of \<open>manifest.json\<close>, from the state in which step 8
  leaves the build: the steps before it (the client and server builds among them) are not part
  of these two functions.  \<open>prerenderMap\<close> is a \<open>Map\<close>, walked in insertion order; the result
  is \<open>None\<close> when the pass throws, which ends the build before the manifest is written.
\<close>

fun prerenderPass ::
  "('c, 'd) PrerenderEnv \<Rightarrow> BuildState \<Rightarrow> (string \<times> PrerenderConfig) list \<Rightarrow> BuildState option" where
  "prerenderPass env st [] = Some st"
| "prerenderPass env st (item # rest) =
     (case prerenderRoute env st item of
        None \<Rightarrow> None
      | Some st' \<Rightarrow> prerenderPass env st' rest)"

definition prerenderAndWriteManifest ::
  "('c, 'd) PrerenderEnv \<Rightarrow> BuildState \<Rightarrow> (string \<times> PrerenderConfig) list \<Rightarrow> BuildState option" where
  "prerenderAndWriteManifest env st prerenderMap =
     (case prerenderPass env st prerenderMap of
        None \<Rightarrow> None
      | Some st' \<Rightarrow> Some (st'\<lparr>manifestFile := Some (manifestRoutes st')\<rparr>))"

text \<open>
  For the statements about the pass: whether \<open>load\<close> answers a page with a \<open>Response\<close>, and
  what a build leaves behind apart from its log (the routes of the manifest, the files
  written, the manifest file).
\<close>

definition loadReturnsResponse ::
  "ManifestRouteEntry \<Rightarrow> string \<Rightarrow> ('c, 'd) PageModule \<Rightarrow> ParamSet \<Rightarrow> bool" where
  "loadReturnsResponse e routeId pageMod ps =
     (hasLoad e = Some True \<and>
      (case load_export pageMod of
         None \<Rightarrow> False
       | Some f \<Rightarrow>
           (case f (concretePathname (pattern e) ps, ps, routeId) of
              Some LoadResponse \<Rightarrow> True
            | _ \<Rightarrow> False)))"

definition renderedParamSets ::
  "ManifestRouteEntry \<Rightarrow> string \<Rightarrow> ('c, 'd) PageModule \<Rightarrow> ParamSet list \<Rightarrow> ParamSet list" where
  "renderedParamSets e routeId pageMod paramSets =
     filter (\<lambda>ps. \<not> loadReturnsResponse e routeId pageMod ps) paramSets"

definition htmlPaths :: "ManifestRouteEntry \<Rightarrow> ParamSet list \<Rightarrow> string list" where
  "htmlPaths e paramSets = map (\<lambda>ps. htmlRelPathOf (concretePathname (pattern e) ps)) paramSets"

definition buildOutput ::
  "BuildState \<Rightarrow> (string \<rightharpoonup> ManifestRouteEntry) \<times> (string \<times> string) list
     \<times> (string \<rightharpoonup> ManifestRouteEntry) option" where
  "buildOutput st = (manifestRoutes st, files st, manifestFile st)"

text \<open>
  The manifest entry of a route after a step of the build: \<open>None\<close> when the step threw or the
  route is not in the manifest.
\<close>

definition entryAfter :: "BuildState option \<Rightarrow> string \<Rightarrow> ManifestRouteEntry option" where
  "entryAfter result routeId =
     (case result of None \<Rightarrow> None | Some st \<Rightarrow> manifestRoutes st routeId)"

section \<open>Build orchestrator: client entries and the client build (steps 3 to 5 of build)\<close>

text \<open>
  \<open>routeIdToSafeName\<close>.  Its four \<open>replace\<close> calls have a global pattern that matches a fixed
  text and a replacement without \<open>$\<close>: every occurrence, found from left to right without
  overlap, is replaced.
\<close>

definition replaceAllChar :: "char \<Rightarrow> string \<Rightarrow> string \<Rightarrow> string" where
  "replaceAllChar c replacement s = concat (map (\<lambda>x. if x = c then replacement else [x]) s)"

fun replaceAllDots :: "string \<Rightarrow> string" where
  "replaceAllDots (a # b # c # rest) =
     (if a = CHR ''.'' \<and> b = CHR ''.'' \<and> c = CHR ''.'' then ''_rest'' @ replaceAllDots rest
      else a # replaceAllDots (b # c # rest))"
| "replaceAllDots s = s"

definition routeIdToSafeName :: "string \<Rightarrow> string" where
  "routeIdToSafeName routeId =
     (if routeId = ''/'' then ''_index''
      else replaceAllChar CHR ''/'' ''__''
             (replaceAllDots
                (replaceAllChar CHR '']'' ''_''
                   (replaceAllChar CHR ''['' [] (drop 1 routeId)))))"

text \<open>
  \<open>getHydrationScript\<close> of the React adapter.  The script is a template literal: its lines,
  each followed by a line feed, the first line empty.  \<open>quoted s\<close> is \<open>s\<close> between double quotes.
\<close>

definition quoted :: "string \<Rightarrow> string" where
  "quoted s = [CHR 0x22] @ s @ [CHR 0x22]"

definition unlines :: "string list \<Rightarrow> string" where
  "unlines ls = concat (map (\<lambda>l. l @ [CHR 0x0A]) ls)"

definition getHydrationScript :: "string \<Rightarrow> string \<Rightarrow> string list option \<Rightarrow> string" where
  "getHydrationScript clientEntryPath containerId layoutClientPaths =
     (let head = ['''',
                  ''import { hydrateRoot } from '' @ quoted ''react-dom/client'' @ '';'',
                  ''import { createElement } from '' @ quoted ''react'' @ '';'',
                  ''import Component from '' @ quoted clientEntryPath @ '';''];
          body = ['''',
                  ''const container = document.getElementById('' @ quoted containerId @ '');'',
                  ''const dataEl = document.getElementById('' @ quoted ''__pyra_data'' @ '');'',
                  ''const data = dataEl ? JSON.parse(dataEl.textContent || '' @ quoted ''{}''
                    @ '') : {};'']
      in if layoutClientPaths \<noteq> None \<and> the layoutClientPaths \<noteq> []
         then
           (let ps = the layoutClientPaths;
                layoutImports =
                  join [CHR 0x0A]
                    (map (\<lambda>i. ''import Layout'' @ natToString i @ '' from '' @ quoted (ps ! i) @ '';'')
                       [0 ..< length ps]);
                inner =
                  foldr (\<lambda>i acc. ''createElement(Layout'' @ natToString i @ '', null, '' @ acc @ '')'')
                    [0 ..< length ps] ''createElement(Component, data)''
            in unlines (head @ [layoutImports] @ body
                          @ [''hydrateRoot(container, '' @ inner @ '');'']))
         else unlines (head @ body @ [''hydrateRoot(container, createElement(Component, data));'']))"

text \<open>
  Step 4 of \<open>build\<close>: for every page route a client entry is written under \<open>buildTmpDir\<close> and
  recorded in \<open>clientEntryMap\<close> (a \<open>Map\<close> from route id to the path of the entry) and in
  \<open>clientEntryPoints\<close> (a plain object from safe name to that path, for which an assignment
  to \<open>__proto__\<close> stores nothing).  \<open>hydrationScript\<close> is \<open>adapter.getHydrationScript\<close>, called
  with two arguments.  The state of the loop is the list of the files written, in the order of
  the writes, with both tables.
\<close>

record ClientEntries =
  entryFiles :: "(string \<times> string) list"
  clientEntryMap :: "(string \<times> string) list"
  clientEntryPoints :: "(string \<times> string) list"

definition setEntryPoint :: "(string \<times> string) list \<Rightarrow> string \<Rightarrow> string \<Rightarrow> (string \<times> string) list" where
  "setEntryPoint obj name v =
     (if name = ''__proto__'' \<and> map_of obj name = None then obj else AList.update name v obj)"

definition generateClientEntry ::
  "PathApi \<Rightarrow> (string \<Rightarrow> string \<Rightarrow> string) \<Rightarrow> string \<Rightarrow> string \<Rightarrow> ClientEntries \<Rightarrow> RouteNode
     \<Rightarrow> ClientEntries" where
  "generateClientEntry paths hydrationScript buildTmpDir containerId acc route =
     (let safeName = routeIdToSafeName (route_id route);
          entryPath = pathJoin paths buildTmpDir (safeName @ ''.tsx'');
          relImport0 = pathRelative paths buildTmpDir (filePath route);
          relImport = (if \<not> startsWith relImport0 ''.'' then ''./'' @ relImport0 else relImport0);
          code = hydrationScript relImport containerId
      in \<lparr>entryFiles = entryFiles acc @ [(entryPath, code)],
          clientEntryMap = AList.update (route_id route) entryPath (clientEntryMap acc),
          clientEntryPoints = setEntryPoint (clientEntryPoints acc) safeName entryPath\<rparr>)"

definition generateClientEntries ::
  "PathApi \<Rightarrow> (string \<Rightarrow> string \<Rightarrow> string) \<Rightarrow> string \<Rightarrow> string \<Rightarrow> RouteNode list \<Rightarrow> ClientEntries" where
  "generateClientEntries paths hydrationScript buildTmpDir containerId pageRoutes =
     foldl (generateClientEntry paths hydrationScript buildTmpDir containerId)
       \<lparr>entryFiles = [], clientEntryMap = [], clientEntryPoints = []\<rparr> pageRoutes"

text \<open>
  \<open>build\<close> from the routes of step 3 on.  Without any route it writes an empty manifest and
  returns.  Otherwise it writes the client entries and awaits \<open>esbuild.build\<close> over them; the
  call is in no \<open>try\<close> block, so when the client build rejects, \<open>build\<close> rejects with it
  (\<open>None\<close>), and steps 6 to 10 (the server build, the manifest, the prerender pass, the write
  of \<open>manifest.json\<close>, the report) run only after the client build has returned.  The
  bundler is a parameter: \<open>esbuildBuild\<close> is \<open>esbuild.build\<close> with the options of step 5, as a
  function of the entry files on disk and of \<open>clientEntryPoints\<close>, \<open>None\<close> when it rejects.
  The steps after it are the parameter \<open>laterSteps\<close>, a function of the result of the client
  build and of \<open>clientEntryMap\<close>, \<open>None\<close> when one of them throws.  \<open>clientEntriesDir\<close> is
  \<open>buildTmpDir\<close>, \<open>path.join(root, '.pyra', 'build', 'client-entries')\<close>, joined here one
  segment at a time.
\<close>

datatype 'b BuildResult = EmptyManifest | Built 'b

definition clientEntriesDir :: "PathApi \<Rightarrow> string \<Rightarrow> string" where
  "clientEntriesDir paths rootDir =
     pathJoin paths (pathJoin paths (pathJoin paths rootDir ''.pyra'') ''build'') ''client-entries''"

definition build ::
  "PathApi \<Rightarrow> (string \<Rightarrow> string \<Rightarrow> string)
     \<Rightarrow> ((string \<times> string) list \<Rightarrow> (string \<times> string) list \<Rightarrow> 'r option)
     \<Rightarrow> string \<Rightarrow> string \<Rightarrow> RouteNode list \<Rightarrow> RouteNode list
     \<Rightarrow> ('r \<Rightarrow> (string \<times> string) list \<Rightarrow> 'b option) \<Rightarrow> 'b BuildResult option" where
  "build paths hydrationScript esbuildBuild rootDir containerId pageRoutes apiRoutes laterSteps =
     (if pageRoutes = [] \<and> apiRoutes = [] then Some EmptyManifest
      else
        (let buildTmpDir = clientEntriesDir paths rootDir;
             entries = generateClientEntries paths hydrationScript buildTmpDir containerId pageRoutes
         in case esbuildBuild (entryFiles entries) (clientEntryPoints entries) of
              None \<Rightarrow> None
            | Some clientResult \<Rightarrow>
                map_option Built (laterSteps clientResult (clientEntryMap entries))))"

section \<open>Example routes\<close>

text \<open>
  Page routes of a site, and their manifest entries as \<open>assembleManifest\<close> writes them when the
  build has recorded nothing else about them.
\<close>

definition sitePageRoute :: "string \<Rightarrow> string \<Rightarrow> RouteNode" where
  "sitePageRoute i p =
     \<lparr>route_id = i, route_pattern = p, route_type = Page, filePath = ''/app/src/routes'' @ i,
      layoutId = None, middlewarePaths = []\<rparr>"

definition sitePageEntry :: "string \<Rightarrow> string \<Rightarrow> ManifestRouteEntry" where
  "sitePageEntry i p =
     pageManifestEntry Map.empty Map.empty Map.empty Map.empty (sitePageRoute i p)"

definition docsEdit :: ManifestRouteEntry where
  "docsEdit = sitePageEntry ''/docs/[id]/edit'' ''/docs/:id/edit''"

definition docsRest :: ManifestRouteEntry where
  "docsRest = sitePageEntry ''/docs/[...path]'' ''/docs/*path''"



definition dynamicOnlyNode :: TrieNode where
  "dynamicOnlyNode = TrieNode [] (Some (''id'', createTrieNode)) None None"


text \<open>Cache configurations: the empty object, and the one of the spec's scenario.\<close>

definition emptyCacheConfig :: CacheConfig where
  "emptyCacheConfig = \<lparr>maxAge = None, sMaxAge = None, staleWhileRevalidate = None\<rparr>"

definition fullCacheConfig :: CacheConfig where
  "fullCacheConfig = \<lparr>maxAge = Some 3600, sMaxAge = Some 7200, staleWhileRevalidate = Some 300\<rparr>"

text \<open>
  A project with one API route, \<open>/api/health\<close>, and the output of the server metafile for
  it, once exporting \<open>GET\<close> and a helper, once exporting the helper only.
\<close>

definition examplePaths :: PathApi where
  "examplePaths =
     \<lparr>pathResolve = (\<lambda>base p. base @ ''/'' @ p),
      pathRelative = (\<lambda>from to. drop (length from + 1) to),
      pathJoin = (\<lambda>a b. a @ ''/'' @ b)\<rparr>"

definition healthRoute :: RouteNode where
  "healthRoute =
     \<lparr>route_id = ''/api/health'', route_pattern = ''/api/health'', route_type = Api,
      filePath = ''/app/src/routes/api/health/route.ts'', layoutId = None,
      middlewarePaths = []\<rparr>"

definition healthEntryRouteMap :: "string \<rightharpoonup> string \<times> RouteType" where
  "healthEntryRouteMap = [''/app/src/routes/api/health/route.ts'' \<mapsto> (''/api/health'', Api)]"

definition healthOutput :: "string list \<Rightarrow> string \<times> OutputMeta" where
  "healthOutput names =
     (''dist/server/api__api__health.js'',
      \<lparr>entryPoint = Some ''src/routes/api/health/route.ts'', exports = Some names\<rparr>)"

definition healthManifest :: "string list \<Rightarrow> (string \<rightharpoonup> ManifestRouteEntry)" where
  "healthManifest names =
     buildManifestRoutes examplePaths ''/app'' ''/app/dist/server'' healthEntryRouteMap
       [healthOutput names] [] [healthRoute] Map.empty Map.empty Map.empty"

definition okResponse :: Response where
  "okResponse = \<lparr>status = 200, headers = [], body = TextBody ''ok''\<rparr>"

definition healthModule :: "unit ServerModule" where
  "healthModule = [''GET'' \<mapsto> Function (\<lambda>ctx. Some okResponse), ''helper'' \<mapsto> NotFunction]"

definition helperModule :: "unit ServerModule" where
  "helperModule = [''helper'' \<mapsto> NotFunction]"

definition healthImport :: "string \<Rightarrow> unit ServerModule option" where
  "healthImport p = Some healthModule"

definition helperImport :: "string \<Rightarrow> unit ServerModule option" where
  "helperImport p = Some helperModule"

text \<open>
  A site with three pages that export \<open>prerender\<close>: \<open>/about\<close> (\<open>prerender = true\<close>),
  \<open>/posts/[slug]\<close> with three parameter sets and a \<open>load\<close> that answers the draft with a
  redirect, and \<open>/broken\<close>, whose module has no default export.  Components, data and
  documents are strings here.
\<close>

definition siteRoutes :: "string \<rightharpoonup> ManifestRouteEntry" where
  "siteRoutes =
     assembleManifestRoutes
       [sitePageRoute ''/about'' ''/about'', sitePageRoute ''/posts/[slug]'' ''/posts/:slug'',
        sitePageRoute ''/broken'' ''/broken'']
       [] Map.empty
       [''/about'' \<mapsto> ''page__about.js'', ''/posts/[slug]'' \<mapsto> ''page__posts__slug_.js'',
        ''/broken'' \<mapsto> ''page__broken.js'']
       [''/about'' \<mapsto> False, ''/posts/[slug]'' \<mapsto> True, ''/broken'' \<mapsto> False]
       Map.empty Map.empty"

definition siteState :: BuildState where
  "siteState = \<lparr>manifestRoutes = siteRoutes, files = [], warnings = [], manifestFile = None\<rparr>"

definition postsLoad :: "string \<times> ParamSet \<times> string \<Rightarrow> string LoadResult option" where
  "postsLoad ctx =
     (if fst ctx = ''/posts/draft'' then Some LoadResponse else Some (LoadData (fst ctx)))"

definition siteModule :: "string \<Rightarrow> (string, string) PageModule" where
  "siteModule p =
     (if p = ''/app/dist/server/page__about.js''
        then \<lparr>default_export = Some ''About'', load_export = None\<rparr>
      else if p = ''/app/dist/server/page__posts__slug_.js''
        then \<lparr>default_export = Some ''Post'', load_export = Some postsLoad\<rparr>
      else \<lparr>default_export = None, load_export = None\<rparr>)"

definition siteDocument ::
  "string \<Rightarrow> string option \<Rightarrow> string \<Rightarrow> ParamSet \<Rightarrow> ManifestRouteEntry \<Rightarrow> string option" where
  "siteDocument component dat pathname ps e = Some (component @ '' at '' @ pathname)"

definition siteEnv :: "(string, string) PrerenderEnv" where
  "siteEnv =
     \<lparr>serverOutputPathMap =
        [''/about'' \<mapsto> ''/app/dist/server/page__about.js'',
         ''/posts/[slug]'' \<mapsto> ''/app/dist/server/page__posts__slug_.js'',
         ''/broken'' \<mapsto> ''/app/dist/server/page__broken.js''],
      importServerModule = siteModule,
      renderDocument = siteDocument\<rparr>"

definition postsPaths :: PrerenderConfig where
  "postsPaths =
     PrerenderPaths (Some [[(''slug'', ''hello'')], [(''slug'', ''world'')], [(''slug'', ''draft'')]])"


text \<open>
  A project with the React adapter and one page, \<open>/broken\<close>, whose file exports
  \<open>prerender = true\<close> and a component by name, and has no default export.  \<open>projectPaths\<close> is
  \<open>node:path\<close> on the paths of this project.  \<open>strictBundler\<close> is a bundler that checks one
  rule of ES modules, the one \<open>esbuild\<close> reports as \<open>No matching export\<close>: it rejects when the
  file of an entry point imports the default export of a module, given by the list
  \<open>withoutDefault\<close>, that has exports but no default export.
\<close>

definition brokenRoute :: RouteNode where
  "brokenRoute =
     \<lparr>route_id = ''/broken'', route_pattern = ''/broken'', route_type = Page,
      filePath = ''/app/src/routes/broken/page.tsx'', layoutId = None, middlewarePaths = []\<rparr>"

definition projectPaths :: PathApi where
  "projectPaths =
     \<lparr>pathResolve = (\<lambda>base p. base @ ''/'' @ p),
      pathRelative = (\<lambda>from to.
         if from = ''/app/.pyra/build/client-entries'' \<and> startsWith to ''/app/''
         then ''../../../'' @ drop 5 to else to),
      pathJoin = (\<lambda>a b. a @ ''/'' @ b)\<rparr>"

definition reactHydrationScript :: "string \<Rightarrow> string \<Rightarrow> string" where
  "reactHydrationScript clientEntryPath containerId =
     getHydrationScript clientEntryPath containerId None"

definition brokenEntryCode :: string where
  "brokenEntryCode =
     unlines
       ['''',
        ''import { hydrateRoot } from '' @ quoted ''react-dom/client'' @ '';'',
        ''import { createElement } from '' @ quoted ''react'' @ '';'',
        ''import Component from '' @ quoted ''../../../src/routes/broken/page.tsx'' @ '';'',
        '''',
        ''const container = document.getElementById('' @ quoted ''app'' @ '');'',
        ''const dataEl = document.getElementById('' @ quoted ''__pyra_data'' @ '');'',
        ''const data = dataEl ? JSON.parse(dataEl.textContent || '' @ quoted ''{}'' @ '') : {};'',
        ''hydrateRoot(container, createElement(Component, data));'']"

definition importsDefaultFrom :: "string \<Rightarrow> string \<Rightarrow> bool" where
  "importsDefaultFrom code specifier =
     (indexOf code (''import Component from '' @ quoted specifier @ '';'') \<noteq> None)"

definition strictBundler ::
  "string list \<Rightarrow> (string \<times> string) list \<Rightarrow> (string \<times> string) list \<Rightarrow> unit option" where
  "strictBundler withoutDefault writtenFiles entryPoints =
     (if list_ex (\<lambda>(name, entryPath).
            case map_of writtenFiles entryPath of
              None \<Rightarrow> False
            | Some code \<Rightarrow> list_ex (importsDefaultFrom code) withoutDefault)
          entryPoints
      then None else Some ())"

definition reportOnly :: "unit \<Rightarrow> (string \<times> string) list \<Rightarrow> string option" where
  "reportOnly clientResult entryMap = Some ''built''"

section \<open>Normalisation of request paths\<close>





section \<open>The trie and the routes it was built from\<close>

lemma stored_createTrieNode [simp]: "stored createTrieNode ks = None"
proof (cases ks)
  case Nil then show ?thesis by (simp add: createTrieNode_def)
next
  case (Cons k ks') then show ?thesis by (cases k) (auto simp: createTrieNode_def)
qed

lemma stored_insertSegments:
  "stored (insertSegments e segs t) ks =
     (if ks = shape_of segs then Some (e, catch_name segs) else stored t ks)"
proof (induction segs arbitrary: t ks)
  case Nil
  show ?case
  proof (cases ks)
    case Nil then show ?thesis by simp
  next
    case (Cons k ks') then show ?thesis by (cases k) auto
  qed
next
  case (Cons seg rest)
  show ?case
  proof (cases ks)
    case Nil then show ?thesis by (auto split: option.splits)
  next
    case (Cons k ks') then show ?thesis
      by (cases k) (auto simp: Cons.IH update_conv' split: option.splits)
  qed
qed


lemma matchSegments_Cons:
  "matchSegments node (segment # rest) ps =
     (if fst (tryStatic node segment rest ps) \<noteq> None then tryStatic node segment rest ps
      else if fst (tryDynamic node segment rest (snd (tryStatic node segment rest ps))) \<noteq> None
        then tryDynamic node segment rest (snd (tryStatic node segment rest ps))
      else tryCatchAll node (segment # rest)
             (snd (tryDynamic node segment rest (snd (tryStatic node segment rest ps)))))"
  by (simp add: tryStatic_def tryDynamic_def tryCatchAll_def Let_def split: prod.splits option.splits)

lemma tryStatic_Some:
  "tryStatic t seg rest ps = (Some e, q) \<Longrightarrow>
     \<exists>c. map_of (staticChildren t) seg = Some c \<and> matchSegments c rest ps = (Some e, q)"
  by (auto simp: tryStatic_def split: option.splits)

lemma tryDynamic_Some:
  "tryDynamic t seg rest ps = (Some e, q) \<Longrightarrow>
     \<exists>pn dn. dynamicChild t = Some (pn, dn) \<and> matchSegments dn rest (setParam ps pn seg) = (Some e, q)"
  by (auto simp: tryDynamic_def Let_def split: option.splits prod.splits if_splits)

lemma tryCatchAll_Some:
  "tryCatchAll t remaining ps = (Some e, q) \<Longrightarrow>
     \<exists>pn. catchAllChild t = Some (pn, e) \<and> q = setParam ps pn (join ''/'' remaining)"
  by (auto simp: tryCatchAll_def split: option.splits)

lemma matchSegments_sound:
  "matchSegments t segs ps = (Some e, ps') \<Longrightarrow>
     \<exists>ks n. stored t ks = Some (e, n) \<and> shape_matches ks segs \<and>
       (\<forall>name. n = Some name \<longrightarrow>
          (name \<noteq> ''__proto__'' \<longrightarrow> ps' name = Some (join ''/'' (drop (length ks - 1) segs))) \<and> length ks \<le> length segs)"
proof (induction segs arbitrary: t ps ps' e)
  case Nil
  then have "stored t [] = Some (e, None) \<and> shape_matches [] []" by auto
  then show ?case by blast
next
  case (Cons seg rest)
  let ?S = "tryStatic t seg rest ps"
  let ?D = "tryDynamic t seg rest (snd ?S)"
  let ?C = "tryCatchAll t (seg # rest) (snd ?D)"
  from Cons.prems consider
      (static) "?S = (Some e, ps')"
    | (dynamic) "?D = (Some e, ps')"
    | (catchall) "?C = (Some e, ps')"
    unfolding matchSegments_Cons by (auto split: if_splits)
  then show ?case
  proof cases
    case static
    then obtain c where c: "map_of (staticChildren t) seg = Some c"
      and m: "matchSegments c rest ps = (Some e, ps')"
      using tryStatic_Some by blast
    from Cons.IH [OF m] obtain ks n where
      st: "stored c ks = Some (e, n)" and sm: "shape_matches ks rest"
      and nm: "\<forall>name. n = Some name \<longrightarrow>
          (name \<noteq> ''__proto__'' \<longrightarrow> ps' name = Some (join ''/'' (drop (length ks - 1) rest))) \<and> length ks \<le> length rest"
      by blast
    have "stored t (Literal seg # ks) = Some (e, n)" using c st by simp
    moreover have "shape_matches (Literal seg # ks) (seg # rest)" using sm by simp
    moreover have "\<forall>name. n = Some name \<longrightarrow>
          (name \<noteq> ''__proto__'' \<longrightarrow> ps' name = Some (join ''/'' (drop (length (Literal seg # ks) - 1) (seg # rest))))
          \<and> length (Literal seg # ks) \<le> length (seg # rest)"
    proof (intro allI impI)
      fix name assume "n = Some name"
      with nm have a: "(name \<noteq> ''__proto__'' \<longrightarrow> ps' name = Some (join ''/'' (drop (length ks - 1) rest)))"
        and b: "length ks \<le> length rest" by auto
      have "ks \<noteq> []" using st \<open>n = Some name\<close> by (cases ks) auto
      then have "drop (length (Literal seg # ks) - 1) (seg # rest) = drop (length ks - 1) rest"
        by (cases ks) auto
      with a b show "(name \<noteq> ''__proto__'' \<longrightarrow> ps' name = Some (join ''/'' (drop (length (Literal seg # ks) - 1) (seg # rest))))
          \<and> length (Literal seg # ks) \<le> length (seg # rest)" by simp
    qed
    ultimately show ?thesis by blast
  next
    case dynamic
    then obtain pn dn where c: "dynamicChild t = Some (pn, dn)"
      and m: "matchSegments dn rest (setParam (snd ?S) pn seg) = (Some e, ps')"
      using tryDynamic_Some by blast
    from Cons.IH [OF m] obtain ks n where
      st: "stored dn ks = Some (e, n)" and sm: "shape_matches ks rest"
      and nm: "\<forall>name. n = Some name \<longrightarrow>
          (name \<noteq> ''__proto__'' \<longrightarrow> ps' name = Some (join ''/'' (drop (length ks - 1) rest))) \<and> length ks \<le> length rest"
      by blast
    have "stored t (Param # ks) = Some (e, n)" using c st by simp
    moreover have "shape_matches (Param # ks) (seg # rest)" using sm by simp
    moreover have "\<forall>name. n = Some name \<longrightarrow>
          (name \<noteq> ''__proto__'' \<longrightarrow> ps' name = Some (join ''/'' (drop (length (Param # ks) - 1) (seg # rest))))
          \<and> length (Param # ks) \<le> length (seg # rest)"
    proof (intro allI impI)
      fix name assume "n = Some name"
      with nm have a: "(name \<noteq> ''__proto__'' \<longrightarrow> ps' name = Some (join ''/'' (drop (length ks - 1) rest)))"
        and b: "length ks \<le> length rest" by auto
      have "ks \<noteq> []" using st \<open>n = Some name\<close> by (cases ks) auto
      then have "drop (length (Param # ks) - 1) (seg # rest) = drop (length ks - 1) rest"
        by (cases ks) auto
      with a b show "(name \<noteq> ''__proto__'' \<longrightarrow> ps' name = Some (join ''/'' (drop (length (Param # ks) - 1) (seg # rest))))
          \<and> length (Param # ks) \<le> length (seg # rest)" by simp
    qed
    ultimately show ?thesis by blast
  next
    case catchall
    then obtain pn where c: "catchAllChild t = Some (pn, e)"
      and q: "ps' = setParam (snd ?D) pn (join ''/'' (seg # rest))"
      using tryCatchAll_Some by blast
    have "stored t [CatchAll] = Some (e, Some pn)" using c by simp
    moreover have "shape_matches [CatchAll] (seg # rest)" by simp
    moreover have "\<forall>name. Some pn = Some name \<longrightarrow>
          (name \<noteq> ''__proto__'' \<longrightarrow> ps' name = Some (join ''/'' (drop (length [CatchAll] - 1) (seg # rest))))
          \<and> length [CatchAll] \<le> length (seg # rest)"
      using q by (simp add: setParam_def)
    ultimately show ?thesis by blast
  qed
qed

lemma matchSegments_backtrack:
  "fst (matchSegments t segs ps) = None \<Longrightarrow> snd (matchSegments t segs ps) \<subseteq>\<^sub>m ps"
proof (induction segs arbitrary: t ps)
  case Nil
  then show ?case by simp
next
  case (Cons seg rest)
  let ?S = "tryStatic t seg rest ps"
  let ?D = "tryDynamic t seg rest (snd ?S)"
  let ?C = "tryCatchAll t (seg # rest) (snd ?D)"
  from Cons.prems have S: "fst ?S = None" and D: "fst ?D = None" and C: "fst ?C = None"
    and r: "matchSegments t (seg # rest) ps = ?C"
    unfolding matchSegments_Cons by (auto split: if_splits)
  have 1: "snd ?S \<subseteq>\<^sub>m ps"
    using S Cons.IH by (auto simp: tryStatic_def split: option.splits)
  have 2: "snd ?D \<subseteq>\<^sub>m snd ?S"
  proof (cases "dynamicChild t")
    case None
    then show ?thesis by (simp add: tryDynamic_def)
  next
    case (Some a)
    obtain pn dn where a: "a = (pn, dn)" by (cases a)
    let ?M = "matchSegments dn rest (setParam (snd ?S) pn seg)"
    have f: "fst ?M = None" using D Some a
      by (auto simp: tryDynamic_def Let_def split: prod.splits if_splits)
    then have "snd ?M \<subseteq>\<^sub>m setParam (snd ?S) pn seg" by (rule Cons.IH)
    then have "(snd ?M)(pn := None) \<subseteq>\<^sub>m snd ?S"
      by (auto simp: map_le_def dom_def setParam_def split: if_splits)
    moreover have "snd ?D = (snd ?M)(pn := None)" using f Some a
      by (auto simp: tryDynamic_def Let_def split: prod.splits)
    ultimately show ?thesis by simp
  qed
  have 3: "snd ?C = snd ?D" using C by (auto simp: tryCatchAll_def split: option.splits)
  from 1 2 3 r show ?case by (metis map_le_trans)
qed


lemma tryStatic_sound:
  assumes "tryStatic t seg rest ps = (Some e, q)"
  shows "\<exists>ks n. stored t (Literal seg # ks) = Some (e, n) \<and> shape_matches ks rest"
proof -
  from assms obtain c where c: "map_of (staticChildren t) seg = Some c"
    and m: "matchSegments c rest ps = (Some e, q)"
    using tryStatic_Some by blast
  from matchSegments_sound [OF m] obtain ks n where
    "stored c ks = Some (e, n)" "shape_matches ks rest" by blast
  with c show ?thesis by auto
qed

lemma tryDynamic_sound:
  assumes "tryDynamic t seg rest ps = (Some e, q)"
  shows "\<exists>ks n. stored t (Param # ks) = Some (e, n) \<and> shape_matches ks rest"
proof -
  from assms obtain pn dn where c: "dynamicChild t = Some (pn, dn)"
    and m: "matchSegments dn rest (setParam ps pn seg) = (Some e, q)"
    using tryDynamic_Some by blast
  from matchSegments_sound [OF m] obtain ks n where
    "stored dn ks = Some (e, n)" "shape_matches ks rest" by blast
  with c show ?thesis by auto
qed

lemma matchSegments_priority:
  "stored t ks = Some (e', n') \<Longrightarrow> shape_matches ks segs \<Longrightarrow>
     \<exists>e q ks0 n. matchSegments t segs ps = (Some e, q) \<and> stored t ks0 = Some (e, n) \<and>
        shape_matches ks0 segs \<and> outranks_eq ks0 ks"
proof (induction segs arbitrary: t ks ps e' n')
  case Nil
  then have "ks = []" by (cases "(ks, []::string list)" rule: shape_matches.cases) auto
  with Nil have "matchSegments t [] ps = (Some e', ps) \<and> stored t [] = Some (e', None)
      \<and> shape_matches [] [] \<and> outranks_eq [] ks" by auto
  then show ?case by blast
next
  case (Cons seg rest)
  let ?S = "tryStatic t seg rest ps"
  let ?D = "tryDynamic t seg rest (snd ?S)"
  let ?C = "tryCatchAll t (seg # rest) (snd ?D)"
  from Cons.prems(2) obtain k ks' where ks: "ks = k # ks'" by (cases ks) auto
  have static_wins: "\<exists>e q ks0 n. matchSegments t (seg # rest) ps = (Some e, q) \<and>
        stored t ks0 = Some (e, n) \<and> shape_matches ks0 (seg # rest) \<and> outranks_eq ks0 ks"
    if "fst ?S \<noteq> None" "rank k > 0" 
  proof -
    from that obtain e q where S: "?S = (Some e, q)" by (cases ?S) auto
    from tryStatic_sound [OF S] obtain ks1 n where
      st1: "stored t (Literal seg # ks1) = Some (e, n)" and sm1: "shape_matches ks1 rest" by blast
    have "shape_matches (Literal seg # ks1) (seg # rest)" using sm1 by simp
    moreover note st1
    moreover have "matchSegments t (seg # rest) ps = (Some e, q)"
      unfolding matchSegments_Cons using S by simp
    moreover have "outranks_eq (Literal seg # ks1) ks" using ks that by simp
    ultimately show ?thesis by blast
  qed
  have dynamic_wins: "\<exists>e q ks0 n. matchSegments t (seg # rest) ps = (Some e, q) \<and>
        stored t ks0 = Some (e, n) \<and> shape_matches ks0 (seg # rest) \<and> outranks_eq ks0 ks"
    if "fst ?S = None" "fst ?D \<noteq> None" "rank k > 1" 
  proof -
    from that obtain e q where D: "?D = (Some e, q)" by (cases ?D) auto
    from tryDynamic_sound [OF D] obtain ks1 n where
      st1: "stored t (Param # ks1) = Some (e, n)" and sm1: "shape_matches ks1 rest" by blast
    have "shape_matches (Param # ks1) (seg # rest)" using sm1 by simp
    moreover note st1
    moreover have "matchSegments t (seg # rest) ps = (Some e, q)"
      unfolding matchSegments_Cons using D that by simp
    moreover have "outranks_eq (Param # ks1) ks" using ks that by simp
    ultimately show ?thesis by blast
  qed
  show ?case
  proof (cases k)
    case (Literal s)
    with Cons.prems ks obtain c where s: "s = seg" and c: "map_of (staticChildren t) seg = Some c"
      and st: "stored c ks' = Some (e', n')" and sm: "shape_matches ks' rest"
      by (auto split: option.splits)
    from Cons.IH [OF st sm, of ps] obtain e q ks0 n where
      m: "matchSegments c rest ps = (Some e, q)" and st0: "stored c ks0 = Some (e, n)"
      and sm0: "shape_matches ks0 rest" and o: "outranks_eq ks0 ks'" by blast
    have "?S = (Some e, q)" using c m by (simp add: tryStatic_def)
    then have "matchSegments t (seg # rest) ps = (Some e, q)"
      unfolding matchSegments_Cons by simp
    moreover have "stored t (Literal seg # ks0) = Some (e, n)" using c st0 by simp
    moreover have "shape_matches (Literal seg # ks0) (seg # rest)" using sm0 by simp
    moreover have "outranks_eq (Literal seg # ks0) ks" using o ks Literal by simp
    ultimately show ?thesis by blast
  next
    case Param
    with Cons.prems ks obtain pn dn where c: "dynamicChild t = Some (pn, dn)"
      and st: "stored dn ks' = Some (e', n')" and sm: "shape_matches ks' rest"
      by (auto split: option.splits)
    show ?thesis
    proof (cases "fst ?S = None")
      case False
      then show ?thesis using static_wins Param by simp
    next
      case True
      from Cons.IH [OF st sm, of "setParam (snd ?S) pn seg"] obtain e q ks0 n where
        m: "matchSegments dn rest (setParam (snd ?S) pn seg) = (Some e, q)"
        and st0: "stored dn ks0 = Some (e, n)"
        and sm0: "shape_matches ks0 rest" and o: "outranks_eq ks0 ks'" by blast
      have "?D = (Some e, q)" using c m by (simp add: tryDynamic_def)
      then have "matchSegments t (seg # rest) ps = (Some e, q)"
        unfolding matchSegments_Cons using True by simp
      moreover have "stored t (Param # ks0) = Some (e, n)" using c st0 by simp
      moreover have "shape_matches (Param # ks0) (seg # rest)" using sm0 by simp
      moreover have "outranks_eq (Param # ks0) ks" using o ks Param by simp
      ultimately show ?thesis by blast
    qed
  next
    case CatchAll
    with Cons.prems ks obtain pn where c: "catchAllChild t = Some (pn, e')" and k': "ks' = []"
      by (auto split: if_splits)
    show ?thesis
    proof (cases "fst ?S = None")
      case False
      then show ?thesis using static_wins CatchAll by simp
    next
      case S: True
      show ?thesis
      proof (cases "fst ?D = None")
        case False
        then show ?thesis using dynamic_wins S CatchAll by simp
      next
        case True
        have "matchSegments t (seg # rest) ps = (Some e', setParam (snd ?D) pn (join ''/'' (seg # rest)))"
          unfolding matchSegments_Cons using S True c by (simp add: tryCatchAll_def)
        moreover have "stored t [CatchAll] = Some (e', Some pn)" using c by simp
        moreover have "shape_matches [CatchAll] (seg # rest)" by simp
        moreover have "outranks_eq [CatchAll] ks" using ks CatchAll by simp
        ultimately show ?thesis by blast
      qed
    qed
  qed
qed

lemma buildMatcher_snoc:
  "buildMatcher (routes @ [r]) = insertSegments r (splitSegments (pattern r)) (buildMatcher routes)"
  by (simp add: buildMatcher_def)

lemma stored_buildMatcher:
  "stored (buildMatcher routes) ks = Some (e, n) \<Longrightarrow>
     e \<in> set routes \<and> route_shape e = ks \<and> n = route_catch_name e"
proof (induction routes arbitrary: ks e n rule: rev_induct)
  case Nil
  then show ?case by (simp add: buildMatcher_def)
next
  case (snoc r routes)
  then show ?case
    by (auto simp: buildMatcher_snoc stored_insertSegments route_shape_def route_catch_name_def
             split: if_splits)
qed

lemma stored_buildMatcher_complete:
  "r \<in> set routes \<Longrightarrow> \<exists>e n. stored (buildMatcher routes) (route_shape r) = Some (e, n)"
proof (induction routes rule: rev_induct)
  case Nil
  then show ?case by simp
next
  case (snoc x routes)
  then show ?case
    by (auto simp: buildMatcher_snoc stored_insertSegments route_shape_def)
qed


lemma match_Some_iff:
  "match t path = Some (e, ps) \<longleftrightarrow> matchSegments t (splitSegments path) Map.empty = (Some e, ps)"
  by (auto simp: match_def Let_def split: prod.splits option.splits)

lemma match_sound:
  assumes "match (buildMatcher routes) path = Some (e, ps)"
  shows "e \<in> set routes \<and> shape_matches (route_shape e) (splitSegments path) \<and>
         (\<forall>name. route_catch_name e = Some name \<longrightarrow>
            (name \<noteq> ''__proto__'' \<longrightarrow> ps name = Some (join ''/'' (drop (length (route_shape e) - 1) (splitSegments path))))
            \<and> length (route_shape e) \<le> length (splitSegments path))"
proof -
  from assms have m: "matchSegments (buildMatcher routes) (splitSegments path) Map.empty = (Some e, ps)"
    by (simp add: match_Some_iff)
  from matchSegments_sound [OF m] obtain ks n where
    st: "stored (buildMatcher routes) ks = Some (e, n)"
    and sm: "shape_matches ks (splitSegments path)"
    and nm: "\<forall>name. n = Some name \<longrightarrow>
          (name \<noteq> ''__proto__'' \<longrightarrow> ps name = Some (join ''/'' (drop (length ks - 1) (splitSegments path))))
          \<and> length ks \<le> length (splitSegments path)"
    by blast
  from stored_buildMatcher [OF st] have "e \<in> set routes" "route_shape e = ks" "n = route_catch_name e"
    by auto
  with sm nm show ?thesis by auto
qed

lemma match_complete:
  assumes "r \<in> set routes" and "shape_matches (route_shape r) (splitSegments path)"
  shows "\<exists>e ps. match (buildMatcher routes) path = Some (e, ps) \<and> e \<in> set routes \<and>
           shape_matches (route_shape e) (splitSegments path) \<and>
           outranks_eq (route_shape e) (route_shape r)"
proof -
  from stored_buildMatcher_complete [OF assms(1)] obtain e' n' where
    st: "stored (buildMatcher routes) (route_shape r) = Some (e', n')" by blast
  from matchSegments_priority [OF st assms(2), of Map.empty] obtain e q ks0 n where
    m: "matchSegments (buildMatcher routes) (splitSegments path) Map.empty = (Some e, q)"
    and st0: "stored (buildMatcher routes) ks0 = Some (e, n)"
    and sm0: "shape_matches ks0 (splitSegments path)"
    and o: "outranks_eq ks0 (route_shape r)" by blast
  from stored_buildMatcher [OF st0] have "e \<in> set routes" "route_shape e = ks0" by auto
  moreover from m have "match (buildMatcher routes) path = Some (e, q)"
    by (simp add: match_Some_iff)
  ultimately show ?thesis using sm0 o by blast
qed

lemma shape_of_no_star:
  "\<forall>segment \<in> set segs. \<not> startsWith segment ''*'' \<Longrightarrow>
     length (shape_of segs) = length segs \<and> CatchAll \<notin> set (shape_of segs)"
  by (induction segs) auto

lemma shape_matches_length:
  "shape_matches ks segs \<Longrightarrow> CatchAll \<notin> set ks \<Longrightarrow> length segs = length ks"
  by (induction ks segs rule: shape_matches.induct) (auto split: list.splits)









lemma setParam_proto: "ps ''__proto__'' = None \<Longrightarrow> setParam ps name v ''__proto__'' = None"
  by (simp add: setParam_def)

lemma matchSegments_proto:
  "ps ''__proto__'' = None \<Longrightarrow> snd (matchSegments t segs ps) ''__proto__'' = None"
proof (induction segs arbitrary: t ps)
  case Nil
  then show ?case by simp
next
  case (Cons seg rest)
  let ?S = "tryStatic t seg rest ps"
  let ?D = "tryDynamic t seg rest (snd ?S)"
  let ?C = "tryCatchAll t (seg # rest) (snd ?D)"
  have 1: "snd ?S ''__proto__'' = None"
    using Cons by (auto simp: tryStatic_def split: option.splits)
  have 2: "snd ?D ''__proto__'' = None"
  proof (cases "dynamicChild t")
    case None
    with 1 show ?thesis by (simp add: tryDynamic_def)
  next
    case (Some a)
    obtain pn dn where a: "a = (pn, dn)" by (cases a)
    have "snd (matchSegments dn rest (setParam (snd ?S) pn seg)) ''__proto__'' = None"
      using 1 by (intro Cons.IH) (simp add: setParam_def)
    with Some a show ?thesis
      by (auto simp: tryDynamic_def Let_def split: prod.splits)
  qed
  have 3: "snd ?C ''__proto__'' = None"
    using 2 by (auto simp: tryCatchAll_def setParam_proto split: option.splits)
  from 1 2 3 show ?case unfolding matchSegments_Cons by simp
qed

lemma match_proto:
  "match t path = Some (e, ps) \<Longrightarrow> ps ''__proto__'' = None"
  using matchSegments_proto [of Map.empty t "splitSegments path"]
  by (simp add: match_Some_iff)

section \<open>Number formatting, cache header and size formatter\<close>

lemma natToString_small: "n < 10 \<Longrightarrow> natToString n = [digitChar n]"
  by (subst natToString.simps) simp

lemma natToString_large: "10 \<le> n \<Longrightarrow> natToString n = natToString (n div 10) @ [digitChar (n mod 10)]"
  by (subst natToString.simps) simp

lemmas numberToString_eval = natToString_small natToString_large digitChar_def numberToString_def

lemma buildCacheControlHeader_Some:
  "buildCacheControlHeader (Some c) =
     (if cacheDirectives c = [] then ''no-cache'' else join '', '' (''public'' # cacheDirectives c))"
  by (simp add: buildCacheControlHeader_def cacheDirectives_def Let_def split: option.splits)

lemma cacheDirectives_Nil:
  "cacheDirectives c = [] \<longleftrightarrow>
     maxAge c = None \<and> sMaxAge c = None \<and> staleWhileRevalidate c = None"
  by (simp add: cacheDirectives_def split: option.splits)

lemma floor_kb: "\<lfloor>(of_nat b :: rat) / 1024 * 10 + 1 / 2\<rfloor> = int ((10 * b + 512) div 1024)"
proof -
  have "(of_nat b :: rat) / 1024 * 10 + 1 / 2 = of_nat (10 * b + 512) / of_nat 1024"
    by (simp add: field_simps)
  then show ?thesis by (simp only: floor_divide_of_nat_eq)
qed

lemma formatSize_KB:
  assumes "1024 \<le> b"
  shows "formatSize b =
           natToString ((10 * b + 512) div 1024 div 10) @ ''.'' @
           [digitChar ((10 * b + 512) div 1024 mod 10)] @ '' KB''"
proof -
  let ?t = "(10 * b + 512) div 1024"
  have k: "\<not> (of_nat b :: rat) / 1024 < 1" "b \<noteq> 0" using assms by simp_all
  have "formatSize b = toFixed1 (of_nat b / 1024) @ '' KB''"
    by (simp only: formatSize_def Let_def k if_False)
  moreover have "toFixed1 (of_nat b / 1024) = natToString (?t div 10) @ ''.'' @ natToString (?t mod 10)"
    by (simp only: toFixed1_def Let_def floor_kb nat_int)
  moreover have "natToString (?t mod 10) = [digitChar (?t mod 10)]"
    by (rule natToString_small) simp
  ultimately show ?thesis by simp
qed

lemma nearest_tenth:
  "\<bar>(of_nat ((10 * b + 512) div 1024) :: rat) / 10 - of_nat b / 1024\<bar> \<le> 1 / 20"
proof -
  define t where "t = (10 * b + 512) div 1024"
  have 1: "1024 * t \<le> 10 * b + 512" unfolding t_def by simp
  have 2: "10 * b + 512 < 1024 * t + 1024"
    unfolding t_def using div_mult_mod_eq [of "10 * b + 512" 1024]
      mod_less_divisor [of 1024 "10 * b + 512"] by linarith
  have a: "(1024::rat) * of_nat t \<le> 10 * of_nat b + 512"
    using of_nat_mono [OF 1, where ?'a = rat] by simp
  have b: "(10::rat) * of_nat b + 512 < 1024 * of_nat t + 1024"
    using 2 [folded of_nat_less_iff [where ?'a = rat]] by simp
  have "\<bar>(of_nat t :: rat) / 10 - of_nat b / 1024\<bar> \<le> 1 / 20"
    using a b by (simp add: abs_le_iff field_simps)
  then show ?thesis by (simp add: t_def)
qed

section \<open>API routes: from the exports to the response\<close>

lemma not_Page_iff: "t \<noteq> Page \<longleftrightarrow> t = Api"
  by (cases t) simp_all

lemma detectApiMethodsStep_other:
  "outputRouteInfo paths rootDir M (snd out) \<noteq> Some (rid, Api) \<Longrightarrow>
     detectApiMethodsStep paths rootDir M m out rid = m rid"
proof (cases "outputRouteInfo paths rootDir M (snd out)")
  case None
  then show ?thesis by (simp add: detectApiMethodsStep_def)
next
  case (Some a)
  obtain a1 t where a: "a = (a1, t)" by (cases a)
  assume ne: "outputRouteInfo paths rootDir M (snd out) \<noteq> Some (rid, Api)"
  show ?thesis
  proof (cases t)
    case Page
    with Some a show ?thesis by (simp add: detectApiMethodsStep_def)
  next
    case Api
    with Some a ne have "a1 \<noteq> rid" by auto
    with Some a Api show ?thesis by (simp add: detectApiMethodsStep_def Let_def)
  qed
qed

lemma detectApiMethodsStep_this:
  "outputRouteInfo paths rootDir M (snd out) = Some (rid, Api) \<Longrightarrow>
     detectApiMethodsStep paths rootDir M m out rid =
       (if exportedMethods (snd out) = [] then m rid else Some (exportedMethods (snd out)))"
  by (simp add: detectApiMethodsStep_def Let_def)

lemma detect_other:
  "\<forall>out \<in> set outs. outputRouteInfo paths rootDir M (snd out) \<noteq> Some (rid, Api) \<Longrightarrow>
     foldl (detectApiMethodsStep paths rootDir M) m outs rid = m rid"
proof (induction outs rule: rev_induct)
  case Nil
  then show ?case by simp
next
  case (snoc out outs)
  then show ?case by (simp add: detectApiMethodsStep_other)
qed

lemma detect_unique:
  assumes "[out \<leftarrow> outs. outputRouteInfo paths rootDir M (snd out) = Some (rid, Api)] = [(op, meta)]"
  shows "detectApiMethods paths rootDir M outs rid =
           (if exportedMethods meta = [] then None else Some (exportedMethods meta))"
proof -
  let ?P = "\<lambda>out. outputRouteInfo paths rootDir M (snd out) = Some (rid, Api)"
  from assms have "\<exists>us vs. outs = us @ (op, meta) # vs \<and> (\<forall>u \<in> set us. \<not> ?P u)
      \<and> ?P (op, meta) \<and> [] = filter ?P vs"
    by (simp only: filter_eq_Cons_iff)
  then obtain us vs where outs: "outs = us @ (op, meta) # vs"
    and us: "\<forall>u \<in> set us. \<not> ?P u" and p: "?P (op, meta)" and vs: "[] = filter ?P vs"
    by blast
  from vs have vs': "\<forall>v \<in> set vs. \<not> ?P v" by (simp only: empty_filter_conv)
  let ?step = "detectApiMethodsStep paths rootDir M"
  have a: "foldl ?step Map.empty us rid = None"
    using detect_other [of us paths rootDir M rid Map.empty] us by simp
  have b: "?step (foldl ?step Map.empty us) (op, meta) rid =
             (if exportedMethods meta = [] then None else Some (exportedMethods meta))"
    using p a by (simp add: detectApiMethodsStep_this)
  have "detectApiMethods paths rootDir M outs rid
          = foldl ?step (?step (foldl ?step Map.empty us) (op, meta)) vs rid"
    by (simp add: detectApiMethods_def outs)
  also have "\<dots> = ?step (foldl ?step Map.empty us) (op, meta) rid"
    using detect_other [of vs paths rootDir M rid] vs' by simp
  finally show ?thesis using b by simp
qed

lemma serverOutput_present_foldl:
  "m rid \<noteq> None \<or> (\<exists>out \<in> set outs. \<exists>t. outputRouteInfo paths rootDir M (snd out) = Some (rid, t)) \<Longrightarrow>
     foldl (\<lambda>result output.
              case outputRouteInfo paths rootDir M (snd output) of
                None \<Rightarrow> result
              | Some (routeId, t) \<Rightarrow>
                  result(routeId \<mapsto>
                    pathRelative paths serverOutDir (pathResolve paths rootDir (fst output))))
       m outs rid \<noteq> None"
proof (induction outs rule: rev_induct)
  case Nil
  then show ?case by simp
next
  case (snoc out outs)
  then show ?case by (auto split: option.splits)
qed

lemma serverOutput_present:
  assumes "out \<in> set outs" "outputRouteInfo paths rootDir M (snd out) = Some (rid, t)"
  shows "buildServerOutputMap paths outs M serverOutDir rootDir rid \<noteq> None"
  unfolding buildServerOutputMap_def
  by (rule serverOutput_present_foldl) (use assms in blast)

lemma assemble_api_entry:
  assumes "r \<in> set apiRoutes" "distinct (map route_id apiRoutes)"
  shows "assembleManifestRoutes pageRoutes apiRoutes clientOutputMap serverOutputMap hasLoadMap
           apiMethodsMap cacheMap (route_id r)
         = Some (apiManifestEntry serverOutputMap apiMethodsMap r)"
proof -
  have "foldl (\<lambda>routes route.
              routes(route_id route \<mapsto> apiManifestEntry serverOutputMap apiMethodsMap route))
          m0 apiRoutes (route_id r)
        = Some (apiManifestEntry serverOutputMap apiMethodsMap r)" for m0
    using assms
  proof (induction apiRoutes rule: rev_induct)
    case Nil
    then show ?case by simp
  next
    case (snoc x xs)
    show ?case
    proof (cases "r = x")
      case True
      then show ?thesis by simp
    next
      case False
      with snoc.prems have "r \<in> set xs" "distinct (map route_id xs)" "route_id x \<noteq> route_id r"
        by (auto simp: image_iff)
      with snoc.IH show ?thesis by simp
    qed
  qed
  then show ?thesis by (simp add: assembleManifestRoutes_def)
qed

lemma api_route_manifest_entry:
  assumes r: "r \<in> set apiRoutes" and d: "distinct (map route_id apiRoutes)"
    and u: "[out \<leftarrow> outputs.
              outputRouteInfo paths rootDir serverEntryRouteMap (snd out) = Some (route_id r, Api)]
            = [(outputPath, outputMeta)]"
  shows "\<exists>e. buildManifestRoutes paths rootDir serverOutDir serverEntryRouteMap outputs pageRoutes
               apiRoutes clientOutputMap hasLoadMap cacheMap (route_id r) = Some e
           \<and> entry_id e = route_id r \<and> entry_type e = Api
           \<and> methods e = (if exportedMethods outputMeta = [] then None
                          else Some (exportedMethods outputMeta))
           \<and> serverEntry e \<noteq> None"
proof -
  let ?so = "buildServerOutputMap paths outputs serverEntryRouteMap serverOutDir rootDir"
  let ?am = "detectApiMethods paths rootDir serverEntryRouteMap outputs"
  let ?e = "apiManifestEntry ?so ?am r"
  have "(outputPath, outputMeta) \<in> set [out \<leftarrow> outputs.
              outputRouteInfo paths rootDir serverEntryRouteMap (snd out) = Some (route_id r, Api)]"
    unfolding u by simp
  then have "(outputPath, outputMeta) \<in> set outputs"
    and "outputRouteInfo paths rootDir serverEntryRouteMap (snd (outputPath, outputMeta))
           = Some (route_id r, Api)"
    by auto
  then have so: "?so (route_id r) \<noteq> None" by (rule serverOutput_present)
  have "buildManifestRoutes paths rootDir serverOutDir serverEntryRouteMap outputs pageRoutes
               apiRoutes clientOutputMap hasLoadMap cacheMap (route_id r) = Some ?e"
    unfolding buildManifestRoutes_def by (rule assemble_api_entry [OF r d])
  moreover have "entry_id ?e = route_id r" "entry_type ?e = Api" "serverEntry ?e \<noteq> None"
    using so by (simp_all add: apiManifestEntry_def)
  moreover have "methods ?e = (if exportedMethods outputMeta = [] then None
                          else Some (exportedMethods outputMeta))"
    using detect_unique [OF u] by (simp add: apiManifestEntry_def)
  ultimately show ?thesis by blast
qed

lemma handleApi_405:
  assumes "requestedMethod reqMethod \<notin> set (case methods e of None \<Rightarrow> [] | Some ms \<Rightarrow> ms)"
  shows "handleApiRouteInner paths serverDir importModule reqMethod ctx e =
           Some \<lparr>status = 405,
                 headers = [(''Content-Type'', ''application/json''),
                            (''Allow'', join '', '' (case methods e of None \<Rightarrow> [] | Some ms \<Rightarrow> ms))],
                 body = JsonBody (JsonObject
                          [(''error'', JsonString (''Method '' @ requestedMethod reqMethod
                                                    @ '' not allowed'')),
                           (''allowed'', JsonArray (map JsonString
                              (case methods e of None \<Rightarrow> [] | Some ms \<Rightarrow> ms)))])\<rparr>"
  using assms by (simp add: handleApiRouteInner_def Let_def)

lemma handleApi_dispatch:
  assumes "requestedMethod reqMethod \<in> set (case methods e of None \<Rightarrow> [] | Some ms \<Rightarrow> ms)"
    and "serverEntry e = Some se" "se \<noteq> []"
    and "importModule (pathJoin paths serverDir se) = Some serverMod"
    and "serverMod (requestedMethod reqMethod) = Some (Function handler)"
  shows "handleApiRouteInner paths serverDir importModule reqMethod ctx e = handler ctx"
proof -
  from assms(1) have "\<not> requestedMethod reqMethod \<notin> set (case methods e of None \<Rightarrow> [] | Some ms \<Rightarrow> ms)"
    by simp
  then show ?thesis
    unfolding handleApiRouteInner_def Let_def
    by (simp only: if_False) (simp add: assms)
qed

lemma exportedMethods_set:
  "set (exportedMethods outputMeta)
     = set (case exports outputMeta of None \<Rightarrow> [] | Some xs \<Rightarrow> xs) \<inter> set HTTP_METHODS"
  by (auto simp: exportedMethods_def Let_def)

lemma healthOutput_unique:
  "[out \<leftarrow> [healthOutput names].
      outputRouteInfo examplePaths ''/app'' healthEntryRouteMap (snd out)
        = Some (route_id healthRoute, Api)] = [healthOutput names]"
  by (simp add: healthOutput_def outputRouteInfo_def examplePaths_def healthEntryRouteMap_def
        healthRoute_def)

lemma healthManifest_eval:
  "healthManifest names ''/api/health'' =
     Some \<lparr>entry_id = ''/api/health'', pattern = ''/api/health'', entry_type = Api,
           clientEntry = None, clientChunks = None, css = None, ssrEntry = None,
           serverEntry = Some ''api__api__health.js'', hasLoad = None,
           methods = (if exportedMethods (snd (healthOutput names)) = [] then None
                      else Some (exportedMethods (snd (healthOutput names)))),
           prerendered = None, prerenderedFile = None, prerenderedCount = None, cache = None,
           layouts = None, middleware = None\<rparr>"
  by (simp add: healthManifest_def buildManifestRoutes_def assembleManifestRoutes_def
        apiManifestEntry_def buildServerOutputMap_def detectApiMethods_def
        detectApiMethodsStep_def outputRouteInfo_def healthOutput_def examplePaths_def
        healthEntryRouteMap_def healthRoute_def Let_def)

section \<open>The prerendering pass, route by route\<close>

lemma prerenderPage_skipped:
  "prerenderPage env e routeId pageMod component ps = Some None
     \<longleftrightarrow> loadReturnsResponse e routeId pageMod ps"
  by (auto simp: prerenderPage_def loadReturnsResponse_def Let_def
           split: option.splits LoadResult.splits)

lemma prerenderPage_rendered:
  "prerenderPage env e routeId pageMod component ps = Some (Some (path, html)) \<Longrightarrow>
     \<not> loadReturnsResponse e routeId pageMod ps
     \<and> path = htmlRelPathOf (concretePathname (pattern e) ps)"
  by (auto simp: prerenderPage_def loadReturnsResponse_def Let_def
           split: option.splits LoadResult.splits if_splits)

lemma renderParamSets_result:
  "renderParamSets env e routeId pageMod component single paramSets (n, f, w) = Some (n', f', w')
   \<Longrightarrow> n' = n + length (renderedParamSets e routeId pageMod paramSets)
       \<and> (\<exists>new. w' = w @ new
             \<and> map fst new = htmlPaths e (renderedParamSets e routeId pageMod paramSets))
       \<and> f' = (if single \<and> renderedParamSets e routeId pageMod paramSets \<noteq> []
               then Some (last (htmlPaths e (renderedParamSets e routeId pageMod paramSets)))
               else f)"
proof (induction paramSets arbitrary: n f w)
  case Nil
  then show ?case by (simp add: renderedParamSets_def htmlPaths_def)
next
  case (Cons ps rest)
  let ?R = "renderedParamSets e routeId pageMod"
  from Cons.prems obtain r where r: "prerenderPage env e routeId pageMod component ps = Some r"
    by (auto split: option.splits)
  show ?case
  proof (cases r)
    case None
    with r have sk: "loadReturnsResponse e routeId pageMod ps"
      by (simp add: prerenderPage_skipped)
    then have eq: "?R (ps # rest) = ?R rest" by (simp add: renderedParamSets_def)
    from Cons.prems r None
    have "renderParamSets env e routeId pageMod component single rest (n, f, w) = Some (n', f', w')"
      by simp
    from Cons.IH [OF this] show ?thesis unfolding eq .
  next
    case (Some a)
    obtain path html where a: "a = (path, html)" by (cases a)
    from prerenderPage_rendered [of env e routeId pageMod component ps path html] r Some a
    have nsk: "\<not> loadReturnsResponse e routeId pageMod ps"
      and path: "path = htmlRelPathOf (concretePathname (pattern e) ps)" by auto
    then have eq: "?R (ps # rest) = ps # ?R rest" by (simp add: renderedParamSets_def)
    from Cons.prems r Some a
    have "renderParamSets env e routeId pageMod component single rest
            (n + 1, (if single then Some path else f), w @ [(path, html)]) = Some (n', f', w')"
      by simp
    from Cons.IH [OF this] obtain new where
      n': "n' = n + 1 + length (?R rest)"
      and w': "w' = (w @ [(path, html)]) @ new" and new: "map fst new = htmlPaths e (?R rest)"
      and f': "f' = (if single \<and> ?R rest \<noteq> [] then Some (last (htmlPaths e (?R rest)))
                     else (if single then Some path else f))"
      by blast
    have "w' = w @ ((path, html) # new)" using w' by simp
    moreover have "map fst ((path, html) # new) = htmlPaths e (?R (ps # rest))"
      using new path by (simp add: eq htmlPaths_def)
    moreover have "n' = n + length (?R (ps # rest))" using n' by (simp add: eq)
    moreover have "f' = (if single \<and> ?R (ps # rest) \<noteq> []
               then Some (last (htmlPaths e (?R (ps # rest)))) else f)"
      using f' path by (simp add: eq htmlPaths_def)
    ultimately show ?thesis by blast
  qed
qed

lemma prerenderRoute_rendered:
  assumes "prerenderRoute env st (routeId, cfg) = Some st'"
    and "manifestRoutes st routeId = Some e" and "entry_type e = Page"
    and "serverOutputPathMap env routeId = Some serverModPath" and "serverModPath \<noteq> []"
    and "default_export (importServerModule env serverModPath) \<noteq> None"
  shows "\<exists>paramSets new.
           paramSetsOf cfg = Some paramSets
         \<and> files st' = files st @ new
         \<and> map fst new
             = htmlPaths e (renderedParamSets e routeId (importServerModule env serverModPath) paramSets)
         \<and> manifestRoutes st' = (manifestRoutes st)(routeId \<mapsto>
             e\<lparr>prerenderedFile :=
                  (if length paramSets = 1
                      \<and> renderedParamSets e routeId (importServerModule env serverModPath) paramSets \<noteq> []
                   then Some (last (htmlPaths e
                          (renderedParamSets e routeId (importServerModule env serverModPath) paramSets)))
                   else prerenderedFile e),
               prerendered := Some True,
               prerenderedCount :=
                 (if length paramSets > 1
                  then Some (length
                          (renderedParamSets e routeId (importServerModule env serverModPath) paramSets))
                  else prerenderedCount e)\<rparr>)"
proof -
  let ?mod = "importServerModule env serverModPath"
  from assms(6) obtain component where c: "default_export ?mod = Some component" by auto
  from assms(1-5) c obtain paramSets where p: "paramSetsOf cfg = Some paramSets"
    by (auto simp: prerenderRoute_def Let_def split: option.splits)
  from assms(1-5) c p obtain n f w where
    l: "renderParamSets env e routeId ?mod component (length paramSets = 1) paramSets
          (0, prerenderedFile e, files st) = Some (n, f, w)"
    by (auto simp: prerenderRoute_def Let_def split: option.splits)
  from assms(1-5) c p l have st': "st' = st\<lparr>manifestRoutes := (manifestRoutes st)(routeId \<mapsto>
        e\<lparr>prerenderedFile := f, prerendered := Some True,
          prerenderedCount := (if length paramSets > 1 then Some n else prerenderedCount e)\<rparr>),
        files := w\<rparr>"
    by (simp add: prerenderRoute_def Let_def)
  from renderParamSets_result [OF l] obtain new where
    "n = length (renderedParamSets e routeId ?mod paramSets)"
    "w = files st @ new" "map fst new = htmlPaths e (renderedParamSets e routeId ?mod paramSets)"
    "f = (if length paramSets = 1 \<and> renderedParamSets e routeId ?mod paramSets \<noteq> []
          then Some (last (htmlPaths e (renderedParamSets e routeId ?mod paramSets)))
          else prerenderedFile e)"
    by auto
  with p st' show ?thesis by simp
qed

lemma prerenderRoute_other:
  assumes "prerenderRoute env st item = Some st'"
  shows "(\<exists>new. files st' = files st @ new)
       \<and> (\<forall>rid. rid \<noteq> fst item \<longrightarrow> manifestRoutes st' rid = manifestRoutes st rid)"
proof -
  have r: "\<exists>new. w' = w @ new"
    if "renderParamSets env e routeId pageMod component single paramSets (n, f, w) = Some (n', f', w')"
    for e routeId pageMod component single paramSets n f w n' f' w'
    using renderParamSets_result [OF that] by blast
  from assms show ?thesis
    by (auto simp: prerenderRoute_def Let_def split: option.splits if_splits dest: r)
qed

lemma prerenderPass_other:
  assumes "prerenderPass env st items = Some st'"
  shows "(\<exists>new. files st' = files st @ new)
       \<and> (\<forall>rid. rid \<notin> fst ` set items \<longrightarrow> manifestRoutes st' rid = manifestRoutes st rid)"
  using assms
proof (induction items arbitrary: st)
  case Nil
  then show ?case by simp
next
  case (Cons item rest)
  from Cons.prems obtain s1 where s1: "prerenderRoute env st item = Some s1"
    and rest: "prerenderPass env s1 rest = Some st'"
    by (auto split: option.splits)
  from prerenderRoute_other [OF s1] Cons.IH [OF rest] show ?case by auto
qed

lemma prerenderPass_append:
  "prerenderPass env st (xs @ ys) =
     (case prerenderPass env st xs of None \<Rightarrow> None | Some s \<Rightarrow> prerenderPass env s ys)"
  by (induction xs arbitrary: st) (auto split: option.splits)

lemma prerenderPass_route:
  assumes "prerenderPass env st items = Some st'"
    and "distinct (map fst items)" and "(routeId, cfg) \<in> set items"
  shows "\<exists>s s' before after.
           prerenderRoute env s (routeId, cfg) = Some s'
         \<and> manifestRoutes s routeId = manifestRoutes st routeId
         \<and> manifestRoutes st' routeId = manifestRoutes s' routeId
         \<and> files s = files st @ before \<and> files st' = files s' @ after"
proof -
  from assms(3) obtain pre post where items: "items = pre @ (routeId, cfg) # post"
    by (meson split_list)
  from assms(2) items have npre: "routeId \<notin> fst ` set pre" and npost: "routeId \<notin> fst ` set post"
    by auto
  from assms(1) items obtain s where s: "prerenderPass env st pre = Some s"
    and r: "prerenderPass env s ((routeId, cfg) # post) = Some st'"
    by (auto simp: prerenderPass_append split: option.splits)
  from r obtain s' where s': "prerenderRoute env s (routeId, cfg) = Some s'"
    and p: "prerenderPass env s' post = Some st'"
    by (auto split: option.splits)
  from prerenderPass_other [OF s] npre obtain before where
    "files s = files st @ before" "manifestRoutes s routeId = manifestRoutes st routeId" by auto
  moreover from prerenderPass_other [OF p] npost obtain after where
    "files st' = files s' @ after" "manifestRoutes st' routeId = manifestRoutes s' routeId" by auto
  ultimately show ?thesis using s' by blast
qed

lemma prerenderRoute_skip:
  assumes "\<forall>p. serverOutputPathMap env routeId = Some p \<longrightarrow>
             default_export (importServerModule env p) = None"
  shows "\<exists>w. prerenderRoute env st (routeId, cfg) = Some (st\<lparr>warnings := warnings st @ w\<rparr>)"
proof -
  have "prerenderRoute env st (routeId, cfg) = Some st
      \<or> prerenderRoute env st (routeId, cfg) = Some (st\<lparr>warnings := warnings st @ [NoDefaultExport routeId]\<rparr>)"
    using assms by (auto simp: prerenderRoute_def Let_def split: option.splits)
  moreover have "st = st\<lparr>warnings := warnings st @ []\<rparr>" by simp
  ultimately show ?thesis by metis
qed

lemma prerenderRoute_warnings:
  "prerenderRoute env (st\<lparr>warnings := w\<rparr>) item
     = map_option (\<lambda>s. s\<lparr>warnings := w @ drop (length (warnings st)) (warnings s)\<rparr>)
         (prerenderRoute env st item)"
  by (auto simp: prerenderRoute_def Let_def split: option.splits)

lemma prerenderRoute_warnings_grow:
  "prerenderRoute env st item = Some s \<Longrightarrow> \<exists>new. warnings s = warnings st @ new"
  by (auto simp: prerenderRoute_def Let_def split: option.splits if_splits)

lemma prerenderPass_buildOutput:
  "buildOutput st1 = buildOutput st2 \<Longrightarrow>
     map_option buildOutput (prerenderPass env st1 items)
       = map_option buildOutput (prerenderPass env st2 items)"
proof (induction items arbitrary: st1 st2)
  case Nil
  then show ?case by simp
next
  case (Cons item rest)
  from Cons.prems have eq: "st2 = st1\<lparr>warnings := warnings st2\<rparr>"
    by (cases st1, cases st2) (simp add: buildOutput_def)
  show ?case
  proof (cases "prerenderRoute env st1 item")
    case None
    then have "prerenderRoute env st2 item = None"
      by (subst eq) (simp add: prerenderRoute_warnings)
    with None show ?thesis by simp
  next
    case (Some s1)
    let ?s2 = "s1\<lparr>warnings := warnings st2 @ drop (length (warnings st1)) (warnings s1)\<rparr>"
    have s2: "prerenderRoute env st2 item = Some ?s2"
      by (subst eq) (simp add: prerenderRoute_warnings Some)
    have "buildOutput s1 = buildOutput ?s2" by (simp add: buildOutput_def)
    from Cons.IH [OF this] Some s2 show ?thesis by simp
  qed
qed

lemma prerenderPass_skip:
  assumes "\<forall>p. serverOutputPathMap env routeId = Some p \<longrightarrow>
             default_export (importServerModule env p) = None"
  shows "map_option buildOutput (prerenderPass env st (pre @ (routeId, cfg) # post))
       = map_option buildOutput (prerenderPass env st (pre @ post))"
proof (cases "prerenderPass env st pre")
  case None
  then show ?thesis by (simp add: prerenderPass_append)
next
  case (Some s)
  from prerenderRoute_skip [OF assms, of s cfg] obtain w where
    w: "prerenderRoute env s (routeId, cfg) = Some (s\<lparr>warnings := warnings s @ w\<rparr>)" by blast
  have "buildOutput (s\<lparr>warnings := warnings s @ w\<rparr>) = buildOutput s"
    by (simp add: buildOutput_def)
  from prerenderPass_buildOutput [OF this, of env post] Some w
  show ?thesis by (simp add: prerenderPass_append)
qed

lemma htmlPaths_single: "htmlPaths e [ps] = [htmlRelPathOf (concretePathname (pattern e) ps)]"
  by (simp add: htmlPaths_def)

section \<open>Claims about the matcher\<close>

text \<open>
  C1.  At every trie node \<open>matchSegments\<close> tries the static child for the segment first, then the
  dynamic child, then the catch-all.  A dynamic attempt that reaches no entry removes its
  parameter binding again, and a failed match never leaves a binding behind, so the catch-all
  of the node or an alternative branch of an ancestor is tried next.  Consequently, for a
  matcher built from any list of routes and any path: whenever some registered route matches
  the path, \<open>match\<close> returns a registered route that matches it and that is at least as
  specific: at the first segment where the two patterns differ in kind, the returned one has
  the literal against a parameter or catch-all, or the parameter against a catch-all.
\<close>

theorem static_before_dynamic_before_catch_all:
  "(\<forall>node segment rest ps.
      matchSegments node (segment # rest) ps =
        (let s = tryStatic node segment rest ps in
         if fst s \<noteq> None then s
         else let d = tryDynamic node segment rest (snd s) in
              if fst d \<noteq> None then d
              else tryCatchAll node (segment # rest) (snd d)))
   \<and> (\<forall>node segment rest ps paramName dynamicNode.
        dynamicChild node = Some (paramName, dynamicNode) \<longrightarrow>
        fst (tryDynamic node segment rest ps) = None \<longrightarrow>
          snd (tryDynamic node segment rest ps) paramName = None \<and>
          snd (tryDynamic node segment rest ps) \<subseteq>\<^sub>m ps)
   \<and> (\<forall>node segs ps.
        fst (matchSegments node segs ps) = None \<longrightarrow> snd (matchSegments node segs ps) \<subseteq>\<^sub>m ps)
   \<and> (\<forall>r \<in> set routes. shape_matches (route_shape r) (splitSegments path) \<longrightarrow>
        (\<exists>e ps. match (buildMatcher routes) path = Some (e, ps) \<and> e \<in> set routes \<and>
                 shape_matches (route_shape e) (splitSegments path) \<and>
                 outranks_eq (route_shape e) (route_shape r)))"
proof (intro conjI allI ballI impI)
  fix node segment rest ps
  show "matchSegments node (segment # rest) ps =
        (let s = tryStatic node segment rest ps in
         if fst s \<noteq> None then s
         else let d = tryDynamic node segment rest (snd s) in
              if fst d \<noteq> None then d
              else tryCatchAll node (segment # rest) (snd d))"
    unfolding matchSegments_Cons by (simp add: Let_def)
next
  fix node :: TrieNode and segment rest ps paramName dynamicNode
  assume dc: "dynamicChild node = Some (paramName, dynamicNode)"
    and f: "fst (tryDynamic node segment rest ps) = None"
  let ?M = "matchSegments dynamicNode rest (setParam ps paramName segment)"
  from dc f have fm: "fst ?M = None"
    by (auto simp: tryDynamic_def Let_def split: prod.splits if_splits)
  then have eq: "snd (tryDynamic node segment rest ps) = (snd ?M)(paramName := None)"
    using dc by (auto simp: tryDynamic_def Let_def split: prod.splits)
  show "snd (tryDynamic node segment rest ps) paramName = None" by (simp add: eq)
  from matchSegments_backtrack [OF fm]
  show "snd (tryDynamic node segment rest ps) \<subseteq>\<^sub>m ps"
    unfolding eq by (auto simp: map_le_def dom_def setParam_def split: if_splits)
next
  fix node segs ps assume "fst (matchSegments node segs ps) = None"
  then show "snd (matchSegments node segs ps) \<subseteq>\<^sub>m ps" by (rule matchSegments_backtrack)
next
  fix r assume "r \<in> set routes" "shape_matches (route_shape r) (splitSegments path)"
  then show "\<exists>e ps. match (buildMatcher routes) path = Some (e, ps) \<and> e \<in> set routes \<and>
                 shape_matches (route_shape e) (splitSegments path) \<and>
                 outranks_eq (route_shape e) (route_shape r)"
    by (rule match_complete)
qed


theorem static_before_dynamic_before_catch_all_witness:
  "(dynamicChild dynamicOnlyNode = Some (''id'', createTrieNode)
      \<and> fst (tryDynamic dynamicOnlyNode ''a'' [''b''] Map.empty) = None
      \<and> snd (tryDynamic dynamicOnlyNode ''a'' [''b''] Map.empty) ''id'' = None)
   \<and> (fst (matchSegments dynamicOnlyNode [''a'', ''b''] Map.empty) = None
      \<and> snd (matchSegments dynamicOnlyNode [''a'', ''b''] Map.empty) \<subseteq>\<^sub>m Map.empty)
   \<and> (docsRest \<in> set [docsEdit, docsRest]
      \<and> shape_matches (route_shape docsRest) (splitSegments ''/docs/a/b'')
      \<and> (\<exists>e ps. match (buildMatcher [docsEdit, docsRest]) ''/docs/a/b'' = Some (e, ps)
            \<and> e \<in> set [docsEdit, docsRest]
            \<and> shape_matches (route_shape e) (splitSegments ''/docs/a/b'')
            \<and> outranks_eq (route_shape e) (route_shape docsRest)))"
proof -
  have h1: "dynamicChild dynamicOnlyNode = Some (''id'', createTrieNode)"
    by (simp add: dynamicOnlyNode_def)
  have h2: "fst (tryDynamic dynamicOnlyNode ''a'' [''b''] Map.empty) = None"
    by code_simp
  have h3: "fst (matchSegments dynamicOnlyNode [''a'', ''b''] Map.empty) = None"
    by code_simp
  have h4: "docsRest \<in> set [docsEdit, docsRest]" by simp
  have h5: "shape_matches (route_shape docsRest) (splitSegments ''/docs/a/b'')"
    by code_simp
  note t = static_before_dynamic_before_catch_all [of "[docsEdit, docsRest]" "''/docs/a/b''"]
  from t h1 h2 have "snd (tryDynamic dynamicOnlyNode ''a'' [''b''] Map.empty) ''id'' = None"
    by blast
  moreover from t h3
  have "snd (matchSegments dynamicOnlyNode [''a'', ''b''] Map.empty) \<subseteq>\<^sub>m Map.empty"
    by blast
  moreover from t h4 h5
  have "\<exists>e ps. match (buildMatcher [docsEdit, docsRest]) ''/docs/a/b'' = Some (e, ps)
            \<and> e \<in> set [docsEdit, docsRest]
            \<and> shape_matches (route_shape e) (splitSegments ''/docs/a/b'')
            \<and> outranks_eq (route_shape e) (route_shape docsRest)"
    by blast
  ultimately show ?thesis using h1 h2 h3 h4 h5 by blast
qed

text \<open>
  C2.  The entry stored on a node is returned only when no path segment remains: with a segment
  left, the result of \<open>matchSegments\<close> does not depend on the node's own entry.  Therefore a
  route returned by \<open>match\<close> is a registered route, and unless it is a catch-all route its
  pattern has exactly as many segments as the path; a route matched by a path with another
  number of segments is a catch-all route.
\<close>

theorem entry_only_at_exact_length:
  "(\<forall>sc dc cc en en' segment rest ps.
      matchSegments (TrieNode sc dc cc en) (segment # rest) ps =
      matchSegments (TrieNode sc dc cc en') (segment # rest) ps)
   \<and> (\<forall>e ps. match (buildMatcher routes) path = Some (e, ps) \<longrightarrow>
        e \<in> set routes \<and>
        (\<not> isCatchAll e \<longrightarrow> length (splitSegments path) = length (splitSegments (pattern e))) \<and>
        (length (splitSegments path) \<noteq> length (splitSegments (pattern e)) \<longrightarrow> isCatchAll e))"
proof (intro conjI allI impI)
  fix sc dc cc en en' segment rest ps
  show "matchSegments (TrieNode sc dc cc en) (segment # rest) ps =
      matchSegments (TrieNode sc dc cc en') (segment # rest) ps"
    unfolding matchSegments_Cons by (simp add: tryStatic_def tryDynamic_def tryCatchAll_def)
next
  fix e ps assume m: "match (buildMatcher routes) path = Some (e, ps)"
  from match_sound [OF m] show "e \<in> set routes" by simp
  have len: "length (splitSegments path) = length (splitSegments (pattern e))" if "\<not> isCatchAll e"
  proof -
    from that have ns: "\<forall>segment \<in> set (splitSegments (pattern e)). \<not> startsWith segment ''*''"
      by (simp add: isCatchAll_def)
    from shape_of_no_star [OF ns] match_sound [OF m] shape_matches_length
    show ?thesis by (auto simp: route_shape_def)
  qed
  then show "\<not> isCatchAll e \<Longrightarrow> length (splitSegments path) = length (splitSegments (pattern e))" .
  from len show "length (splitSegments path) \<noteq> length (splitSegments (pattern e)) \<Longrightarrow> isCatchAll e"
    by blast
qed


theorem entry_only_at_exact_length_witness:
  "(\<exists>ps. match (buildMatcher [docsEdit, docsRest]) ''/docs/a/edit'' = Some (docsEdit, ps)
         \<and> ps ''id'' = Some ''a'')
   \<and> \<not> isCatchAll docsEdit
   \<and> length (splitSegments ''/docs/a/edit'') = length (splitSegments (pattern docsEdit))
   \<and> (\<exists>ps. match (buildMatcher [docsEdit, docsRest]) ''/docs/a/b/c'' = Some (docsRest, ps))
   \<and> length (splitSegments ''/docs/a/b/c'') \<noteq> length (splitSegments (pattern docsRest))
   \<and> isCatchAll docsRest"
proof -
  let ?m = "buildMatcher [docsEdit, docsRest]"
  have "fst (matchSegments ?m (splitSegments ''/docs/a/edit'') Map.empty) = Some docsEdit"
    by code_simp
  moreover
  have "snd (matchSegments ?m (splitSegments ''/docs/a/edit'') Map.empty) ''id'' = Some ''a''"
    by code_simp
  ultimately obtain ps1 where m1: "match ?m ''/docs/a/edit'' = Some (docsEdit, ps1)"
    and p1: "ps1 ''id'' = Some ''a''"
    by (cases "matchSegments ?m (splitSegments ''/docs/a/edit'') Map.empty")
       (auto simp: match_Some_iff)
  have n1: "\<not> isCatchAll docsEdit" by code_simp
  have "fst (matchSegments ?m (splitSegments ''/docs/a/b/c'') Map.empty) = Some docsRest"
    by code_simp
  then obtain ps where m2: "match ?m ''/docs/a/b/c'' = Some (docsRest, ps)"
    by (cases "matchSegments ?m (splitSegments ''/docs/a/b/c'') Map.empty")
       (auto simp: match_Some_iff)
  have n2: "length (splitSegments ''/docs/a/b/c'') \<noteq> length (splitSegments (pattern docsRest))"
    by code_simp
  from entry_only_at_exact_length [of "[docsEdit, docsRest]" "''/docs/a/edit''"] m1 n1
  have "length (splitSegments ''/docs/a/edit'') = length (splitSegments (pattern docsEdit))"
    by blast
  moreover from entry_only_at_exact_length [of "[docsEdit, docsRest]" "''/docs/a/b/c''"] m2 n2
  have "isCatchAll docsRest" by blast
  ultimately show ?thesis using m1 p1 n1 m2 n2 by blast
qed







section \<open>Claims about the Cache-Control header and the size formatter\<close>

text \<open>
  C4 (amended).  Without a cache config the header is \<open>no-cache\<close>.  With a cache config in
  which none of the three fields is present the header is \<open>no-cache\<close> as well; with at least
  one field present, each present field an integer of magnitude below \<open>2^53\<close>, it is
  \<open>public\<close> followed by exactly the directives of the fields present, in the order max-age,
  s-maxage, stale-while-revalidate, joined by a comma and a space.  The config of the scenario
  gives \<open>public, max-age=3600, s-maxage=7200, stale-while-revalidate=300\<close>.
\<close>

theorem cache_control_header:
  "buildCacheControlHeader None = ''no-cache''
   \<and> (maxAge c = None \<and> sMaxAge c = None \<and> staleWhileRevalidate c = None \<longrightarrow>
        buildCacheControlHeader (Some c) = ''no-cache'')
   \<and> ((maxAge c \<noteq> None \<or> sMaxAge c \<noteq> None \<or> staleWhileRevalidate c \<noteq> None)
        \<and> safeIntegerFields c \<longrightarrow>
        buildCacheControlHeader (Some c) = join '', '' (''public'' # cacheDirectives c))
   \<and> buildCacheControlHeader (Some fullCacheConfig)
        = ''public, max-age=3600, s-maxage=7200, stale-while-revalidate=300''"
proof (intro conjI impI)
  show "buildCacheControlHeader None = ''no-cache''"
    by (simp add: buildCacheControlHeader_def)
  show "maxAge c = None \<and> sMaxAge c = None \<and> staleWhileRevalidate c = None \<Longrightarrow>
        buildCacheControlHeader (Some c) = ''no-cache''"
    by (simp add: buildCacheControlHeader_Some cacheDirectives_Nil)
  show "(maxAge c \<noteq> None \<or> sMaxAge c \<noteq> None \<or> staleWhileRevalidate c \<noteq> None)
        \<and> safeIntegerFields c \<Longrightarrow>
        buildCacheControlHeader (Some c) = join '', '' (''public'' # cacheDirectives c)"
    by (auto simp: buildCacheControlHeader_Some cacheDirectives_Nil)
  show "buildCacheControlHeader (Some fullCacheConfig)
        = ''public, max-age=3600, s-maxage=7200, stale-while-revalidate=300''"
    by (simp add: buildCacheControlHeader_def fullCacheConfig_def numberToString_eval)
qed

theorem cache_control_header_witness:
  "maxAge emptyCacheConfig = None \<and> sMaxAge emptyCacheConfig = None
   \<and> staleWhileRevalidate emptyCacheConfig = None
   \<and> buildCacheControlHeader (Some emptyCacheConfig) = ''no-cache''
   \<and> sMaxAge fullCacheConfig \<noteq> None
   \<and> safeIntegerFields fullCacheConfig
   \<and> buildCacheControlHeader (Some fullCacheConfig)
        = join '', '' (''public'' # cacheDirectives fullCacheConfig)
   \<and> cacheDirectives fullCacheConfig
        = [''max-age=3600'', ''s-maxage=7200'', ''stale-while-revalidate=300'']"
proof -
  have e: "maxAge emptyCacheConfig = None \<and> sMaxAge emptyCacheConfig = None
      \<and> staleWhileRevalidate emptyCacheConfig = None"
    by (simp add: emptyCacheConfig_def)
  have f: "sMaxAge fullCacheConfig \<noteq> None" by (simp add: fullCacheConfig_def)
  have s: "safeIntegerFields fullCacheConfig"
    by (simp add: safeIntegerFields_def safeInteger_def fullCacheConfig_def)
  have d: "cacheDirectives fullCacheConfig
        = [''max-age=3600'', ''s-maxage=7200'', ''stale-while-revalidate=300'']"
    by (simp add: cacheDirectives_def fullCacheConfig_def numberToString_eval)
  from cache_control_header [of emptyCacheConfig] e
  have "buildCacheControlHeader (Some emptyCacheConfig) = ''no-cache''" by blast
  moreover from cache_control_header [of fullCacheConfig] f s
  have "buildCacheControlHeader (Some fullCacheConfig)
        = join '', '' (''public'' # cacheDirectives fullCacheConfig)" by blast
  ultimately show ?thesis using e f s d by blast
qed

text \<open>
  C4 as stated fails for a cache config without fields (a page exporting \<open>cache = {}\<close>): the
  claim gives \<open>public\<close> followed by no directive, the code answers \<open>no-cache\<close>.
\<close>

theorem cache_control_header_counterexample:
  "buildCacheControlHeader (Some emptyCacheConfig) = ''no-cache''
   \<and> join '', '' (''public'' # cacheDirectives emptyCacheConfig) = ''public''"
  by (simp add: buildCacheControlHeader_def cacheDirectives_def emptyCacheConfig_def)

text \<open>
  C9.  For a byte count in the exact integer range: zero is shown as a dash; a count below
  1024 as the count itself followed by \<open>B\<close>; a count of at least 1024 as kilobytes with one
  decimal digit followed by \<open>KB\<close>, where the number shown is a tenth nearest to
  \<open>bytes / 1024\<close> (ties go up).
\<close>

theorem formatSize_units:
  assumes "bytes < 2 ^ 53"
  shows "(bytes = 0 \<longrightarrow> formatSize bytes = ''-'')
   \<and> (0 < bytes \<and> bytes < 1024 \<longrightarrow> formatSize bytes = natToString bytes @ '' B'')
   \<and> (1024 \<le> bytes \<longrightarrow>
        (\<exists>tenths. formatSize bytes
                    = natToString (tenths div 10) @ ''.'' @ [digitChar (tenths mod 10)] @ '' KB''
           \<and> \<bar>(of_nat tenths :: rat) / 10 - of_nat bytes / 1024\<bar> \<le> 1 / 20
           \<and> tenths = (10 * bytes + 512) div 1024))"
proof (intro conjI impI)
  show "bytes = 0 \<Longrightarrow> formatSize bytes = ''-''" by (simp add: formatSize_def)
  show "0 < bytes \<and> bytes < 1024 \<Longrightarrow> formatSize bytes = natToString bytes @ '' B''"
    by (simp add: formatSize_def)
  assume "1024 \<le> bytes"
  from formatSize_KB [OF this] nearest_tenth [of bytes]
  show "\<exists>tenths. formatSize bytes
                    = natToString (tenths div 10) @ ''.'' @ [digitChar (tenths mod 10)] @ '' KB''
           \<and> \<bar>(of_nat tenths :: rat) / 10 - of_nat bytes / 1024\<bar> \<le> 1 / 20
           \<and> tenths = (10 * bytes + 512) div 1024"
    by blast
qed

theorem formatSize_units_witness:
  "(0::nat) < 2 ^ 53 \<and> formatSize 0 = ''-''
   \<and> (1023::nat) < 2 ^ 53 \<and> formatSize 1023 = ''1023 B''
   \<and> (1076::nat) < 2 ^ 53 \<and> (1024::nat) \<le> 1076 \<and> formatSize 1076 = ''1.1 KB''"
proof -
  have b: "(0::nat) < 2 ^ 53" "(1023::nat) < 2 ^ 53" "(1076::nat) < 2 ^ 53" by simp_all
  from formatSize_units [OF b(1)] have "formatSize 0 = ''-''" by blast
  moreover from formatSize_units [OF b(2)] have "formatSize 1023 = natToString 1023 @ '' B''"
    by simp
  then have "formatSize 1023 = ''1023 B''" by (simp add: numberToString_eval)
  moreover from formatSize_units [OF b(3)]
  have "formatSize 1076 = natToString ((10 * 1076 + 512) div 1024 div 10) @ ''.'' @
          [digitChar ((10 * 1076 + 512) div 1024 mod 10)] @ '' KB''" by auto
  then have "formatSize 1076 = ''1.1 KB''" by (simp add: numberToString_eval)
  ultimately show ?thesis using b by simp
qed

section \<open>Claims about API routes\<close>

text \<open>
  C5.  Take an API route of the build and the one output of the server metafile that belongs
  to it.  The manifest entry of the route records as methods exactly the export names of that
  output that are among GET, POST, PUT, DELETE, PATCH, HEAD, OPTIONS (every other export name
  is ignored), and it has a server entry.  For a request whose upper-cased method is not among
  them the production server answers 405 with an \<open>Allow\<close> header that lists exactly these
  methods.  A request for a recorded method is dispatched: when the server bundle is imported
  and exports a function under the method's name, the response is that of the function
  called with the request context.
\<close>

theorem api_method_dispatch:
  assumes "r \<in> set apiRoutes" and "distinct (map route_id apiRoutes)"
    and "[out \<leftarrow> outputs.
            outputRouteInfo paths rootDir serverEntryRouteMap (snd out) = Some (route_id r, Api)]
         = [(outputPath, outputMeta)]"
  shows "\<exists>e. buildManifestRoutes paths rootDir serverOutDir serverEntryRouteMap outputs pageRoutes
               apiRoutes clientOutputMap hasLoadMap cacheMap (route_id r) = Some e
      \<and> (case methods e of None \<Rightarrow> [] | Some ms \<Rightarrow> ms) = exportedMethods outputMeta
      \<and> set (exportedMethods outputMeta)
           = set (case exports outputMeta of None \<Rightarrow> [] | Some xs \<Rightarrow> xs) \<inter> set HTTP_METHODS
      \<and> serverEntry e \<noteq> None
      \<and> (\<forall>reqMethod ctx.
            requestedMethod reqMethod \<notin> set (exportedMethods outputMeta) \<longrightarrow>
            handleApiRouteInner paths serverDir importModule reqMethod ctx e =
              Some \<lparr>status = 405,
                    headers = [(''Content-Type'', ''application/json''),
                               (''Allow'', join '', '' (exportedMethods outputMeta))],
                    body = JsonBody (JsonObject
                      [(''error'', JsonString (''Method '' @ requestedMethod reqMethod
                                                @ '' not allowed'')),
                       (''allowed'', JsonArray (map JsonString (exportedMethods outputMeta)))])\<rparr>)
      \<and> (\<forall>reqMethod ctx se serverMod handler.
            requestedMethod reqMethod \<in> set (exportedMethods outputMeta) \<longrightarrow>
            serverEntry e = Some se \<longrightarrow> se \<noteq> [] \<longrightarrow>
            importModule (pathJoin paths serverDir se) = Some serverMod \<longrightarrow>
            serverMod (requestedMethod reqMethod) = Some (Function handler) \<longrightarrow>
            handleApiRouteInner paths serverDir importModule reqMethod ctx e = handler ctx)"
proof -
  from api_route_manifest_entry [OF assms, where serverOutDir = serverOutDir
      and pageRoutes = pageRoutes and clientOutputMap = clientOutputMap
      and hasLoadMap = hasLoadMap and cacheMap = cacheMap]
  obtain e where
    m: "buildManifestRoutes paths rootDir serverOutDir serverEntryRouteMap outputs pageRoutes
               apiRoutes clientOutputMap hasLoadMap cacheMap (route_id r) = Some e"
    and ms: "methods e = (if exportedMethods outputMeta = [] then None
                          else Some (exportedMethods outputMeta))"
    and se: "serverEntry e \<noteq> None"
    by blast
  from ms have al: "(case methods e of None \<Rightarrow> [] | Some ms \<Rightarrow> ms) = exportedMethods outputMeta"
    by simp
  have a: "handleApiRouteInner paths serverDir importModule reqMethod ctx e =
              Some \<lparr>status = 405,
                    headers = [(''Content-Type'', ''application/json''),
                               (''Allow'', join '', '' (exportedMethods outputMeta))],
                    body = JsonBody (JsonObject
                      [(''error'', JsonString (''Method '' @ requestedMethod reqMethod
                                                @ '' not allowed'')),
                       (''allowed'', JsonArray (map JsonString (exportedMethods outputMeta)))])\<rparr>"
    if "requestedMethod reqMethod \<notin> set (exportedMethods outputMeta)" for reqMethod ctx
    using handleApi_405 [of reqMethod e paths serverDir importModule ctx] that
    unfolding al by simp
  have b: "handleApiRouteInner paths serverDir importModule reqMethod ctx e = handler ctx"
    if "requestedMethod reqMethod \<in> set (exportedMethods outputMeta)"
      "serverEntry e = Some se" "se \<noteq> []"
      "importModule (pathJoin paths serverDir se) = Some serverMod"
      "serverMod (requestedMethod reqMethod) = Some (Function handler)"
    for reqMethod ctx se serverMod handler
    using handleApi_dispatch [of reqMethod e se importModule paths serverDir serverMod handler ctx]
      that unfolding al by simp
  from m al se a b exportedMethods_set [of outputMeta] show ?thesis by blast
qed

theorem api_method_dispatch_witness:
  "healthRoute \<in> set [healthRoute] \<and> distinct (map route_id [healthRoute])
   \<and> exportedMethods (snd (healthOutput [''GET'', ''helper''])) = [''GET'']
   \<and> requestedMethod (Some ''put'') = ''PUT''
   \<and> requestedMethod (Some ''get'') = ''GET''
   \<and> (\<exists>e. healthManifest [''GET'', ''helper''] ''/api/health'' = Some e
         \<and> methods e = Some [''GET'']
         \<and> serverEntry e = Some ''api__api__health.js''
         \<and> map_option status
              (handleApiRouteInner examplePaths ''/app/dist/server'' healthImport (Some ''put'') () e)
             = Some 405
         \<and> map_option headers
              (handleApiRouteInner examplePaths ''/app/dist/server'' healthImport (Some ''put'') () e)
             = Some [(''Content-Type'', ''application/json''), (''Allow'', ''GET'')]
         \<and> handleApiRouteInner examplePaths ''/app/dist/server'' healthImport (Some ''get'') () e
             = Some okResponse)"
proof -
  let ?names = "[''GET'', ''helper'']"
  have h1: "healthRoute \<in> set [healthRoute]" and h2: "distinct (map route_id [healthRoute])"
    by simp_all
  have x: "exportedMethods (snd (healthOutput ?names)) = [''GET'']"
    by (simp add: exportedMethods_def healthOutput_def HTTP_METHODS_def)
  have p: "requestedMethod (Some ''put'') = ''PUT''" and g: "requestedMethod (Some ''get'') = ''GET''"
    by (simp_all add: requestedMethod_def toUpperCase_def)
  have rid: "route_id healthRoute = ''/api/health''" by (simp add: healthRoute_def)
  have u: "[out \<leftarrow> [healthOutput ?names].
      outputRouteInfo examplePaths ''/app'' healthEntryRouteMap (snd out)
        = Some (route_id healthRoute, Api)] = [(fst (healthOutput ?names), snd (healthOutput ?names))]"
    by (simp only: healthOutput_unique prod.collapse)
  from api_method_dispatch [OF h1 h2 u,
      of "''/app/dist/server''" "[]" Map.empty Map.empty Map.empty "''/app/dist/server''" healthImport]
  obtain e where m: "healthManifest ?names ''/api/health'' = Some e"
    and no: "\<forall>reqMethod ctx.
            requestedMethod reqMethod \<notin> set (exportedMethods (snd (healthOutput ?names))) \<longrightarrow>
            handleApiRouteInner examplePaths ''/app/dist/server'' healthImport reqMethod ctx e =
              Some \<lparr>status = 405,
                    headers = [(''Content-Type'', ''application/json''),
                               (''Allow'', join '', '' (exportedMethods (snd (healthOutput ?names))))],
                    body = JsonBody (JsonObject
                      [(''error'', JsonString (''Method '' @ requestedMethod reqMethod
                                                @ '' not allowed'')),
                       (''allowed'', JsonArray (map JsonString
                                       (exportedMethods (snd (healthOutput ?names)))))])\<rparr>"
    and yes: "\<forall>reqMethod ctx se serverMod handler.
            requestedMethod reqMethod \<in> set (exportedMethods (snd (healthOutput ?names))) \<longrightarrow>
            serverEntry e = Some se \<longrightarrow> se \<noteq> [] \<longrightarrow>
            healthImport (pathJoin examplePaths ''/app/dist/server'' se) = Some serverMod \<longrightarrow>
            serverMod (requestedMethod reqMethod) = Some (Function handler) \<longrightarrow>
            handleApiRouteInner examplePaths ''/app/dist/server'' healthImport reqMethod ctx e
              = handler ctx"
    unfolding healthManifest_def rid by blast
  from m healthManifest_eval [of ?names] x have ms: "methods e = Some [''GET'']"
    and se: "serverEntry e = Some ''api__api__health.js''" by auto
  from no [rule_format, of "Some ''put''" "()"] p x
  have r405: "handleApiRouteInner examplePaths ''/app/dist/server'' healthImport (Some ''put'') () e =
      Some \<lparr>status = 405,
            headers = [(''Content-Type'', ''application/json''), (''Allow'', ''GET'')],
            body = JsonBody (JsonObject
                      [(''error'', JsonString ''Method PUT not allowed''),
                       (''allowed'', JsonArray [JsonString ''GET''])])\<rparr>"
    by simp
  have "healthModule (requestedMethod (Some ''get'')) = Some (Function (\<lambda>ctx. Some okResponse))"
    by (simp add: g healthModule_def)
  with yes [rule_format, of "Some ''get''" "''api__api__health.js''" healthModule
      "\<lambda>ctx. Some okResponse" "()"] g x se
  have r200: "handleApiRouteInner examplePaths ''/app/dist/server'' healthImport (Some ''get'') () e
      = Some okResponse"
    by (simp add: healthImport_def)
  from m ms se r405 r200 h1 h2 x p g show ?thesis by simp
qed

text \<open>
  C6 (amended).  Take an API route of the build whose output in the server metafile exports
  no recognized method name.  The route is listed in the manifest all the same, as an API
  entry without \<open>methods\<close>: nothing in the build checks that a method exists.  At run time
  every request to the route, whatever its method, is answered with 405 and an empty \<open>Allow\<close>
  header.
\<close>

theorem api_route_without_methods:
  assumes "r \<in> set apiRoutes" and "distinct (map route_id apiRoutes)"
    and "[out \<leftarrow> outputs.
            outputRouteInfo paths rootDir serverEntryRouteMap (snd out) = Some (route_id r, Api)]
         = [(outputPath, outputMeta)]"
    and "exportedMethods outputMeta = []"
  shows "\<exists>e. buildManifestRoutes paths rootDir serverOutDir serverEntryRouteMap outputs pageRoutes
               apiRoutes clientOutputMap hasLoadMap cacheMap (route_id r) = Some e
      \<and> entry_id e = route_id r \<and> entry_type e = Api \<and> methods e = None
      \<and> (\<forall>reqMethod ctx.
            handleApiRouteInner paths serverDir importModule reqMethod ctx e =
              Some \<lparr>status = 405,
                    headers = [(''Content-Type'', ''application/json''), (''Allow'', [])],
                    body = JsonBody (JsonObject
                      [(''error'', JsonString (''Method '' @ requestedMethod reqMethod
                                                @ '' not allowed'')),
                       (''allowed'', JsonArray [])])\<rparr>)"
proof -
  from api_route_manifest_entry [OF assms(1-3), where serverOutDir = serverOutDir
      and pageRoutes = pageRoutes and clientOutputMap = clientOutputMap
      and hasLoadMap = hasLoadMap and cacheMap = cacheMap] assms(4)
  obtain e where
    m: "buildManifestRoutes paths rootDir serverOutDir serverEntryRouteMap outputs pageRoutes
               apiRoutes clientOutputMap hasLoadMap cacheMap (route_id r) = Some e"
    and i: "entry_id e = route_id r" "entry_type e = Api"
    and ms: "methods e = None"
    by auto
  have "handleApiRouteInner paths serverDir importModule reqMethod ctx e =
              Some \<lparr>status = 405,
                    headers = [(''Content-Type'', ''application/json''), (''Allow'', [])],
                    body = JsonBody (JsonObject
                      [(''error'', JsonString (''Method '' @ requestedMethod reqMethod
                                                @ '' not allowed'')),
                       (''allowed'', JsonArray [])])\<rparr>" for reqMethod ctx
    using handleApi_405 [of reqMethod e paths serverDir importModule ctx] ms by simp
  with m i ms show ?thesis by blast
qed

theorem api_route_without_methods_witness:
  "healthRoute \<in> set [healthRoute] \<and> distinct (map route_id [healthRoute])
   \<and> exportedMethods (snd (healthOutput [''helper''])) = []
   \<and> (\<exists>e. healthManifest [''helper''] ''/api/health'' = Some e
         \<and> entry_type e = Api \<and> methods e = None
         \<and> map_option status
              (handleApiRouteInner examplePaths ''/app/dist/server'' helperImport (Some ''GET'') () e)
             = Some 405)"
proof -
  let ?names = "[''helper'']"
  have h1: "healthRoute \<in> set [healthRoute]" and h2: "distinct (map route_id [healthRoute])"
    by simp_all
  have x: "exportedMethods (snd (healthOutput ?names)) = []"
    by (simp add: exportedMethods_def healthOutput_def HTTP_METHODS_def)
  have rid: "route_id healthRoute = ''/api/health''" by (simp add: healthRoute_def)
  have u: "[out \<leftarrow> [healthOutput ?names].
      outputRouteInfo examplePaths ''/app'' healthEntryRouteMap (snd out)
        = Some (route_id healthRoute, Api)] = [(fst (healthOutput ?names), snd (healthOutput ?names))]"
    by (simp only: healthOutput_unique prod.collapse)
  from api_route_without_methods [OF h1 h2 u x,
      of "''/app/dist/server''" "[]" Map.empty Map.empty Map.empty "''/app/dist/server''" helperImport]
  obtain e where m: "healthManifest ?names ''/api/health'' = Some e"
    and t: "entry_type e = Api" "methods e = None"
    and no: "\<forall>reqMethod ctx.
            handleApiRouteInner examplePaths ''/app/dist/server'' helperImport reqMethod ctx e =
              Some \<lparr>status = 405,
                    headers = [(''Content-Type'', ''application/json''), (''Allow'', [])],
                    body = JsonBody (JsonObject
                      [(''error'', JsonString (''Method '' @ requestedMethod reqMethod
                                                @ '' not allowed'')),
                       (''allowed'', JsonArray [])])\<rparr>"
    unfolding healthManifest_def rid by blast
  from no [rule_format, of "Some ''GET''" "()"]
  have "map_option status
          (handleApiRouteInner examplePaths ''/app/dist/server'' helperImport (Some ''GET'') () e)
        = Some 405" by simp
  with m t h1 h2 x show ?thesis by simp
qed

text \<open>
  C6 as stated fails: for the route of the example, built from a bundle that exports only a
  helper, a GET request is answered with 405, not with 500.
\<close>

theorem api_route_without_methods_counterexample:
  "map_option methods (healthManifest [''helper''] ''/api/health'') = Some None
   \<and> map_option status
        (Option.bind (healthManifest [''helper''] ''/api/health'')
           (handleApiRouteInner examplePaths ''/app/dist/server'' helperImport (Some ''GET'') ()))
       = Some 405
   \<and> map_option status
        (Option.bind (healthManifest [''helper''] ''/api/health'')
           (handleApiRouteInner examplePaths ''/app/dist/server'' helperImport (Some ''GET'') ()))
       \<noteq> Some 500"
proof -
  have x: "exportedMethods (snd (healthOutput [''helper''])) = []"
    by (simp add: exportedMethods_def healthOutput_def HTTP_METHODS_def)
  show ?thesis
    unfolding healthManifest_eval x
    by (simp add: handleApiRouteInner_def Let_def)
qed

section \<open>Claims about the prerendering pass\<close>

text \<open>
  C7 (amended).  Suppose the prerendering pass completes.  Take a route of \<open>prerenderMap\<close> (a
  page whose \<open>prerender\<close> export is \<open>true\<close> or an object with \<open>paths()\<close>) that is a page of the
  manifest, has a compiled server module and whose module has a default export.  After the
  pass its manifest entry has \<open>prerendered: true\<close>.  The pass wrote, one after the other, one
  HTML file for each parameter set for which \<open>load\<close> did not return a \<open>Response\<close>, and only
  those: a \<open>Response\<close> skips that page and nothing else.  With more than one parameter set the
  entry records as \<open>prerenderedCount\<close> exactly the number of these files; with exactly one
  parameter set whose page is rendered it records the path of the file as \<open>prerenderedFile\<close>.
  The file of a page is \<open>index.html\<close> for the root URL and the URL without its leading slash
  followed by \<open>/index.html\<close> for any other URL.
\<close>

theorem prerender_pass_manifest:
  assumes "prerenderPass env st prerenderMap = Some st'"
    and "distinct (map fst prerenderMap)"
    and "(routeId, prerenderConfig) \<in> set prerenderMap"
    and "manifestRoutes st routeId = Some e" and "entry_type e = Page"
    and "serverOutputPathMap env routeId = Some serverModPath" and "serverModPath \<noteq> []"
    and "default_export (importServerModule env serverModPath) \<noteq> None"
  shows "\<exists>e' paramSets earlier new later.
       manifestRoutes st' routeId = Some e' \<and> prerendered e' = Some True
     \<and> paramSetsOf prerenderConfig = Some paramSets
     \<and> files st' = files st @ earlier @ new @ later
     \<and> map fst new
         = htmlPaths e (renderedParamSets e routeId (importServerModule env serverModPath) paramSets)
     \<and> (length paramSets > 1 \<longrightarrow> prerenderedCount e' = Some (length new))
     \<and> (length paramSets = 1 \<longrightarrow> new \<noteq> [] \<longrightarrow>
          prerenderedFile e'
            = Some (htmlRelPathOf (concretePathname (pattern e) (hd paramSets)))
          \<and> map fst new = [htmlRelPathOf (concretePathname (pattern e) (hd paramSets))])
     \<and> htmlRelPathOf ''/'' = ''index.html''
     \<and> (\<forall>pathname. pathname \<noteq> ''/'' \<longrightarrow>
           htmlRelPathOf pathname = drop 1 pathname @ ''/index.html'')"
proof -
  let ?mod = "importServerModule env serverModPath"
  from prerenderPass_route [OF assms(1-3)] obtain s s' earlier later where
    r: "prerenderRoute env s (routeId, prerenderConfig) = Some s'"
    and ms: "manifestRoutes s routeId = manifestRoutes st routeId"
    and ms': "manifestRoutes st' routeId = manifestRoutes s' routeId"
    and fs: "files s = files st @ earlier" and fs': "files st' = files s' @ later"
    by blast
  from ms assms(4) have se: "manifestRoutes s routeId = Some e" by simp
  from prerenderRoute_rendered [OF r se assms(5-8)] obtain paramSets new where
    p: "paramSetsOf prerenderConfig = Some paramSets"
    and f: "files s' = files s @ new"
    and n: "map fst new = htmlPaths e (renderedParamSets e routeId ?mod paramSets)"
    and m: "manifestRoutes s' = (manifestRoutes s)(routeId \<mapsto>
             e\<lparr>prerenderedFile :=
                  (if length paramSets = 1 \<and> renderedParamSets e routeId ?mod paramSets \<noteq> []
                   then Some (last (htmlPaths e (renderedParamSets e routeId ?mod paramSets)))
                   else prerenderedFile e),
               prerendered := Some True,
               prerenderedCount :=
                 (if length paramSets > 1
                  then Some (length (renderedParamSets e routeId ?mod paramSets))
                  else prerenderedCount e)\<rparr>)"
    by blast
  let ?R = "renderedParamSets e routeId ?mod paramSets"
  let ?e' = "e\<lparr>prerenderedFile :=
                  (if length paramSets = 1 \<and> ?R \<noteq> [] then Some (last (htmlPaths e ?R))
                   else prerenderedFile e),
               prerendered := Some True,
               prerenderedCount :=
                 (if length paramSets > 1 then Some (length ?R) else prerenderedCount e)\<rparr>"
  have len: "length new = length ?R"
    using n by (metis length_map htmlPaths_def)
  have e': "manifestRoutes st' routeId = Some ?e'" using ms' m by simp
  have pre: "prerendered ?e' = Some True" by simp
  have fl: "files st' = files st @ earlier @ new @ later" using fs fs' f by simp
  have cnt: "length paramSets > 1 \<longrightarrow> prerenderedCount ?e' = Some (length new)"
    using len by simp
  have single: "prerenderedFile ?e'
            = Some (htmlRelPathOf (concretePathname (pattern e) (hd paramSets)))
          \<and> map fst new = [htmlRelPathOf (concretePathname (pattern e) (hd paramSets))]"
    if l: "length paramSets = 1" and ne: "new \<noteq> []"
  proof -
    from l obtain ps where ps: "paramSets = [ps]" by (cases paramSets) auto
    from ne len have "?R \<noteq> []" by auto
    then have "?R = [ps]" unfolding ps renderedParamSets_def by (auto split: if_splits)
    with n l ps show ?thesis by (simp add: htmlPaths_single)
  qed
  have h: "htmlRelPathOf ''/'' = ''index.html''"
    "\<forall>pathname. pathname \<noteq> ''/'' \<longrightarrow> htmlRelPathOf pathname = drop 1 pathname @ ''/index.html''"
    by (simp_all add: htmlRelPathOf_def)
  show ?thesis
    apply (rule exI [of _ ?e'], rule exI [of _ paramSets], rule exI [of _ earlier],
           rule exI [of _ new], rule exI [of _ later])
    using e' pre p fl n cnt single h by blast
qed

theorem prerender_pass_manifest_witness:
  "(\<exists>st'. prerenderPass siteEnv siteState
             [(''/about'', PrerenderTrue), (''/posts/[slug]'', postsPaths)] = Some st'
      \<and> map_option prerendered (manifestRoutes st' ''/posts/[slug]'') = Some (Some True)
      \<and> map_option prerenderedCount (manifestRoutes st' ''/posts/[slug]'') = Some (Some 2)
      \<and> map fst (files st')
          = [''about/index.html'', ''posts/hello/index.html'', ''posts/world/index.html''])
   \<and> distinct (map fst [(''/about'', PrerenderTrue), (''/posts/[slug]'', postsPaths)])
   \<and> map_option entry_type (manifestRoutes siteState ''/posts/[slug]'') = Some Page
   \<and> serverOutputPathMap siteEnv ''/posts/[slug]'' = Some ''/app/dist/server/page__posts__slug_.js''
   \<and> default_export (importServerModule siteEnv ''/app/dist/server/page__posts__slug_.js'')
       = Some ''Post''"
proof -
  let ?pm = "[(''/about'', PrerenderTrue), (''/posts/[slug]'', postsPaths)]"
  let ?p = "''/app/dist/server/page__posts__slug_.js''"
  have "prerenderPass siteEnv siteState ?pm \<noteq> None" by code_simp
  then obtain st' where pass: "prerenderPass siteEnv siteState ?pm = Some st'" by auto
  have d: "distinct (map fst ?pm)" by simp
  have i: "(''/posts/[slug]'', postsPaths) \<in> set ?pm" by simp
  have "manifestRoutes siteState ''/posts/[slug]'' \<noteq> None" by code_simp
  then obtain e where e: "manifestRoutes siteState ''/posts/[slug]'' = Some e" by auto
  have "map_option entry_type (manifestRoutes siteState ''/posts/[slug]'') = Some Page"
    by code_simp
  with e have t: "entry_type e = Page" by simp
  have so: "serverOutputPathMap siteEnv ''/posts/[slug]'' = Some ?p" by code_simp
  have ne: "?p \<noteq> []" by simp
  have de: "default_export (importServerModule siteEnv ?p) = Some ''Post''" by code_simp
  then have de': "default_export (importServerModule siteEnv ?p) \<noteq> None" by simp
  have fl: "map_option (\<lambda>s. map fst (files s)) (prerenderPass siteEnv siteState ?pm)
      = Some [''about/index.html'', ''posts/hello/index.html'', ''posts/world/index.html'']"
    by code_simp
  from prerender_pass_manifest [OF pass d i e t so ne de']
  obtain e' paramSets and new :: "(string \<times> string) list" where
    m: "manifestRoutes st' ''/posts/[slug]'' = Some e'" and pr: "prerendered e' = Some True"
    and ps: "paramSetsOf postsPaths = Some paramSets"
    and n: "map fst new
         = htmlPaths e (renderedParamSets e ''/posts/[slug]'' (importServerModule siteEnv ?p) paramSets)"
    and c: "length paramSets > 1 \<longrightarrow> prerenderedCount e' = Some (length new)"
    by blast
  from ps have pss: "paramSets = [[(''slug'', ''hello'')], [(''slug'', ''world'')], [(''slug'', ''draft'')]]"
    by (simp add: paramSetsOf_def postsPaths_def)
  have "map_option (\<lambda>e. length (renderedParamSets e ''/posts/[slug]'' (importServerModule siteEnv ?p)
           [[(''slug'', ''hello'')], [(''slug'', ''world'')], [(''slug'', ''draft'')]]))
          (manifestRoutes siteState ''/posts/[slug]'') = Some 2"
    by code_simp
  with e pss
  have two: "length (renderedParamSets e ''/posts/[slug]'' (importServerModule siteEnv ?p) paramSets) = 2"
    by simp
  have "length (map fst new) = length (htmlPaths e
          (renderedParamSets e ''/posts/[slug]'' (importServerModule siteEnv ?p) paramSets))"
    by (simp only: n)
  then have "length new = 2" by (simp add: htmlPaths_def two)
  moreover have "length paramSets > 1" by (simp add: pss)
  ultimately have cnt: "prerenderedCount e' = Some 2" using c by simp
  from fl pass have fl': "map fst (files st')
          = [''about/index.html'', ''posts/hello/index.html'', ''posts/world/index.html'']"
    by simp
  have ex: "\<exists>st'. prerenderPass siteEnv siteState ?pm = Some st'
      \<and> map_option prerendered (manifestRoutes st' ''/posts/[slug]'') = Some (Some True)
      \<and> map_option prerenderedCount (manifestRoutes st' ''/posts/[slug]'') = Some (Some 2)
      \<and> map fst (files st')
          = [''about/index.html'', ''posts/hello/index.html'', ''posts/world/index.html'']"
    using pass m pr cnt fl' by simp
  have ty: "map_option entry_type (manifestRoutes siteState ''/posts/[slug]'') = Some Page"
    using e t by simp
  from ex d ty so de show ?thesis by blast
qed

text \<open>
  C7 as stated fails for a route with a prerender export whose module has no default export:
  after the pass its manifest entry has no \<open>prerendered\<close> field.
\<close>

theorem prerender_pass_manifest_counterexample:
  "map_option prerendered
     (entryAfter (prerenderPass siteEnv siteState [(''/broken'', PrerenderTrue)]) ''/broken'')
     = Some None
   \<and> map_option warnings (prerenderPass siteEnv siteState [(''/broken'', PrerenderTrue)])
     = Some [NoDefaultExport ''/broken'']"
  by code_simp

text \<open>
  C8 (the code departs from the claim).  Step 9 does what the claim says: the turn of a route
  whose compiled module has no default export logs a warning and changes neither the manifest
  nor the files, so the pass leaves behind what it leaves behind without that route.  But
  \<open>build\<close> does not reach step 9 for such a page under the React adapter.  Step 4 writes a
  client entry for every page route, prerendered or not, and step 5 awaits the client build
  over these entries in no \<open>try\<close> block: when the bundler rejects them, \<open>build\<close> rejects,
  whatever the later steps would do, so no warning is logged and no manifest is written.
  The entry of the React adapter imports the default export of the page file: for the
  project with the one page \<open>/broken\<close>, step 4 writes the script \<open>brokenEntryCode\<close>, with the
  line \<open>import Component from "../../../src/routes/broken/page.tsx";\<close>.
\<close>

theorem missing_default_export_fails_client_build:
  "(serverOutputPathMap env routeId = Some serverModPath \<and> serverModPath \<noteq> []
      \<and> default_export (importServerModule env serverModPath) = None
      \<and> manifestRoutes st routeId = Some e \<and> entry_type e = Page \<longrightarrow>
        prerenderRoute env st (routeId, prerenderConfig)
          = Some (st\<lparr>warnings := warnings st @ [NoDefaultExport routeId]\<rparr>))
   \<and> (serverOutputPathMap env routeId = Some serverModPath
      \<and> default_export (importServerModule env serverModPath) = None \<longrightarrow>
        map_option buildOutput
          (prerenderPass env st (earlier @ (routeId, prerenderConfig) # later))
          = map_option buildOutput (prerenderPass env st (earlier @ later)))
   \<and> ((pageRoutes \<noteq> [] \<or> apiRoutes \<noteq> [])
      \<and> esbuildBuild
           (entryFiles (generateClientEntries paths hydrationScript
                          (clientEntriesDir paths rootDir) containerId pageRoutes))
           (clientEntryPoints (generateClientEntries paths hydrationScript
                                 (clientEntriesDir paths rootDir) containerId pageRoutes))
          = None \<longrightarrow>
        build paths hydrationScript esbuildBuild rootDir containerId pageRoutes apiRoutes
          laterSteps = None)
   \<and> clientEntriesDir projectPaths ''/app'' = ''/app/.pyra/build/client-entries''
   \<and> generateClientEntries projectPaths reactHydrationScript
        ''/app/.pyra/build/client-entries'' ''app'' [brokenRoute]
       = \<lparr>entryFiles = [(''/app/.pyra/build/client-entries/broken.tsx'', brokenEntryCode)],
          clientEntryMap = [(''/broken'', ''/app/.pyra/build/client-entries/broken.tsx'')],
          clientEntryPoints = [(''broken'', ''/app/.pyra/build/client-entries/broken.tsx'')]\<rparr>
   \<and> importsDefaultFrom brokenEntryCode ''../../../src/routes/broken/page.tsx''"
proof -
  have a: "serverOutputPathMap env routeId = Some serverModPath \<and> serverModPath \<noteq> []
      \<and> default_export (importServerModule env serverModPath) = None
      \<and> manifestRoutes st routeId = Some e \<and> entry_type e = Page \<longrightarrow>
        prerenderRoute env st (routeId, prerenderConfig)
          = Some (st\<lparr>warnings := warnings st @ [NoDefaultExport routeId]\<rparr>)"
    by (simp add: prerenderRoute_def Let_def)
  have b: "serverOutputPathMap env routeId = Some serverModPath
      \<and> default_export (importServerModule env serverModPath) = None \<longrightarrow>
        map_option buildOutput
          (prerenderPass env st (earlier @ (routeId, prerenderConfig) # later))
          = map_option buildOutput (prerenderPass env st (earlier @ later))"
  proof
    assume h: "serverOutputPathMap env routeId = Some serverModPath
      \<and> default_export (importServerModule env serverModPath) = None"
    then have "\<forall>p. serverOutputPathMap env routeId = Some p \<longrightarrow>
             default_export (importServerModule env p) = None" by simp
    then show "map_option buildOutput
          (prerenderPass env st (earlier @ (routeId, prerenderConfig) # later))
          = map_option buildOutput (prerenderPass env st (earlier @ later))"
      by (rule prerenderPass_skip)
  qed
  have c: "(pageRoutes \<noteq> [] \<or> apiRoutes \<noteq> [])
      \<and> esbuildBuild
           (entryFiles (generateClientEntries paths hydrationScript
                          (clientEntriesDir paths rootDir) containerId pageRoutes))
           (clientEntryPoints (generateClientEntries paths hydrationScript
                                 (clientEntriesDir paths rootDir) containerId pageRoutes))
          = None \<longrightarrow>
        build paths hydrationScript esbuildBuild rootDir containerId pageRoutes apiRoutes
          laterSteps = None"
    by (auto simp: build_def Let_def)
  have d: "clientEntriesDir projectPaths ''/app'' = ''/app/.pyra/build/client-entries''"
    by code_simp
  have e: "generateClientEntries projectPaths reactHydrationScript
        ''/app/.pyra/build/client-entries'' ''app'' [brokenRoute]
       = \<lparr>entryFiles = [(''/app/.pyra/build/client-entries/broken.tsx'', brokenEntryCode)],
          clientEntryMap = [(''/broken'', ''/app/.pyra/build/client-entries/broken.tsx'')],
          clientEntryPoints = [(''broken'', ''/app/.pyra/build/client-entries/broken.tsx'')]\<rparr>"
    by code_simp
  have f: "importsDefaultFrom brokenEntryCode ''../../../src/routes/broken/page.tsx''"
    by code_simp
  from a b c d e f show ?thesis by blast
qed

theorem missing_default_export_fails_client_build_witness:
  "serverOutputPathMap siteEnv ''/broken'' = Some ''/app/dist/server/page__broken.js''
   \<and> default_export (importServerModule siteEnv ''/app/dist/server/page__broken.js'') = None
   \<and> map_option entry_type (manifestRoutes siteState ''/broken'') = Some Page
   \<and> map_option warnings (prerenderRoute siteEnv siteState (''/broken'', PrerenderTrue))
       = Some [NoDefaultExport ''/broken'']
   \<and> map_option buildOutput
        (prerenderPass siteEnv siteState [(''/broken'', PrerenderTrue), (''/about'', PrerenderTrue)])
       = map_option buildOutput (prerenderPass siteEnv siteState [(''/about'', PrerenderTrue)])
   \<and> strictBundler [''../../../src/routes/broken/page.tsx'']
        [(''/app/.pyra/build/client-entries/broken.tsx'', brokenEntryCode)]
        [(''broken'', ''/app/.pyra/build/client-entries/broken.tsx'')] = None
   \<and> build projectPaths reactHydrationScript
        (strictBundler [''../../../src/routes/broken/page.tsx'']) ''/app'' ''app''
        [brokenRoute] [] reportOnly = None"
proof -
  let ?p = "''/app/dist/server/page__broken.js''"
  let ?bundler = "strictBundler [''../../../src/routes/broken/page.tsx'']"
  let ?entries = "generateClientEntries projectPaths reactHydrationScript
        (clientEntriesDir projectPaths ''/app'') ''app'' [brokenRoute]"
  have so: "serverOutputPathMap siteEnv ''/broken'' = Some ?p" by code_simp
  have de: "default_export (importServerModule siteEnv ?p) = None" by code_simp
  have ne: "?p \<noteq> []" by simp
  have "manifestRoutes siteState ''/broken'' \<noteq> None" by code_simp
  then obtain e where e: "manifestRoutes siteState ''/broken'' = Some e" by auto
  have ty: "map_option entry_type (manifestRoutes siteState ''/broken'') = Some Page"
    by code_simp
  with e have t: "entry_type e = Page" by simp
  note inst = missing_default_export_fails_client_build
    [where env = siteEnv and routeId = "''/broken''" and serverModPath = ?p and st = siteState
       and e = e and prerenderConfig = PrerenderTrue and earlier = "[]"
       and later = "[(''/about'', PrerenderTrue)]" and pageRoutes = "[brokenRoute]"
       and apiRoutes = "[]" and esbuildBuild = ?bundler and paths = projectPaths
       and hydrationScript = reactHydrationScript and rootDir = "''/app''"
       and containerId = "''app''" and laterSteps = reportOnly]
  from inst so ne de e t have "prerenderRoute siteEnv siteState (''/broken'', PrerenderTrue)
      = Some (siteState\<lparr>warnings := warnings siteState @ [NoDefaultExport ''/broken'']\<rparr>)"
    by blast
  then have w: "map_option warnings (prerenderRoute siteEnv siteState (''/broken'', PrerenderTrue))
       = Some [NoDefaultExport ''/broken'']"
    by (simp add: siteState_def)
  from inst so de have p: "map_option buildOutput
        (prerenderPass siteEnv siteState [(''/broken'', PrerenderTrue), (''/about'', PrerenderTrue)])
       = map_option buildOutput (prerenderPass siteEnv siteState [(''/about'', PrerenderTrue)])"
    by simp
  have r: "?bundler [(''/app/.pyra/build/client-entries/broken.tsx'', brokenEntryCode)]
        [(''broken'', ''/app/.pyra/build/client-entries/broken.tsx'')] = None"
    by code_simp
  from inst have g: "?entries
       = \<lparr>entryFiles = [(''/app/.pyra/build/client-entries/broken.tsx'', brokenEntryCode)],
          clientEntryMap = [(''/broken'', ''/app/.pyra/build/client-entries/broken.tsx'')],
          clientEntryPoints = [(''broken'', ''/app/.pyra/build/client-entries/broken.tsx'')]\<rparr>"
    by simp
  have "?bundler (entryFiles ?entries) (clientEntryPoints ?entries) = None"
    unfolding g using r by simp
  with inst have b: "build projectPaths reactHydrationScript ?bundler ''/app'' ''app''
        [brokenRoute] [] reportOnly = None"
    by blast
  from so de ty w p r b show ?thesis by blast
qed

end
